theory Spec2Isabelle
  imports Main "HOL-Library.Word"
begin

section \<open>ldapReader: a paged LDAP search reader\<close>

text \<open>
  A shallow embedding of the class \<open>ldapReader\<close> of \<open>ldapReader.h\<close>. The object is a
  record of its member variables; every member function takes the object and returns the
  outcome together with the object as the call leaves it, also when the call throws (an
  exception thrown in the middle of a member function keeps the assignments made before it).

  Private member functions start with an underscore in the source (\<open>_query\<close>); here the
  underscore is written \<open>u_\<close> (\<open>u_query\<close>).
\<close>

subsection \<open>C strings and struct berval\<close>

text \<open>
  A \<open>char*\<close> buffer is a \<open>string\<close> (a list of bytes); \<open>NULL\<close> is \<open>None\<close>. \<open>strlen\<close> counts
  the bytes before the first NUL byte; a buffer the library hands out is NUL-terminated
  after its last byte, so \<open>strlen\<close> of a buffer without a NUL byte is its length.
  \<open>c_str\<close> is the source's idiom \<open>new char[strlen(x)+1]; memcpy(.., x, strlen(x)+1)\<close>.
\<close>

definition strlen :: "string \<Rightarrow> nat" where
  "strlen buf = length (takeWhile (\<lambda>c. c \<noteq> CHR 0x00) buf)"

definition c_str :: "string \<Rightarrow> string" where
  "c_str buf = takeWhile (\<lambda>c. c \<noteq> CHR 0x00) buf"

record berval =
  bv_len :: nat
  bv_val :: "string option"

subsection \<open>What the LDAP library and the server contribute\<close>

definition LDAP_SUCCESS :: int where
  "LDAP_SUCCESS = 0"

definition DEFAULT_LDAP_VERSION :: nat where
  "DEFAULT_LDAP_VERSION = 3"

definition DEFAULT_PAGE_SIZE :: int where
  "DEFAULT_PAGE_SIZE = 1000"

definition DEFAULT_PAGING_CRITICAL :: char where
  "DEFAULT_PAGING_CRITICAL = CHR ''T''"

definition DEFAULT_MAX_NUMBER_OF_ATTRIBUTES :: "32 word" where
  "DEFAULT_MAX_NUMBER_OF_ATTRIBUTES = 50"

text \<open>
  The paging control built by \<open>ldap_create_page_control\<close>: page size, cookie and
  criticality.
\<close>

record LDAPControl =
  ldctl_pagesize :: int
  ldctl_cookie :: berval
  ldctl_iscritical :: char

text \<open>
  An entry of a search result is the list of its attributes, each with its values in
  server order.

  A search returns a chain of messages in memory of its own. The chains are numbered (by
  the number of requests sent when the search returned), and a message is named by the
  number of its chain and its position in the chain. The head of a chain with entries
  is its first entry, so \<open>ldap_first_entry\<close> returns the address of the result itself;
  the head of a chain without entries is the message that ends the search. A pointer
  carries the address and what is read through it: the entries of the chain for a result
  pointer (a non-null result without entries has none), the entry and the entries after
  it for an entry pointer.
\<close>

type_synonym LDAPEntry = "(string \<times> berval list) list"

type_synonym message_address = "nat \<times> nat"

record result_ptr =
  res_chain :: nat
  res_entries :: "LDAPEntry list"

record entry_ptr =
  ent_chain :: nat
  ent_index :: nat
  ent_entry :: LDAPEntry
  ent_rest :: "LDAPEntry list"

definition result_address :: "result_ptr \<Rightarrow> message_address" where
  "result_address r = (res_chain r, 0)"

definition entry_address :: "entry_ptr \<Rightarrow> message_address" where
  "entry_address p = (ent_chain p, ent_index p)"

definition ldap_first_entry :: "result_ptr \<Rightarrow> entry_ptr option" where
  "ldap_first_entry r =
     (case res_entries r of
        [] \<Rightarrow> None
      | e # es \<Rightarrow> Some \<lparr>ent_chain = res_chain r, ent_index = 0, ent_entry = e, ent_rest = es\<rparr>)"

definition ldap_next_entry :: "entry_ptr \<Rightarrow> entry_ptr option" where
  "ldap_next_entry p =
     (case ent_rest p of
        [] \<Rightarrow> None
      | e # es \<Rightarrow> Some \<lparr>ent_chain = ent_chain p, ent_index = Suc (ent_index p),
                         ent_entry = e, ent_rest = es\<rparr>)"




text \<open>The requests that reach the server over the connection handle.\<close>

record search_request =
  req_base :: "string option"
  req_filter :: "string option"
  req_attrs :: "string list option"
  req_controls :: "(LDAPControl option \<times> LDAPControl option) option"

datatype request =
  Bind_request "string option" berval
| Search_request search_request

text \<open>
  What one call of \<open>ldap_search_ext_s\<close> and the two parsing calls after it produce:
  the return code of the search and the result it stores, the return code of
  \<open>ldap_parse_result\<close>, and the first returned control as
  \<open>ldap_parse_pageresponse_control\<close> decodes it (\<open>None\<close>: the array of returned
  controls is \<open>NULL\<close>).
\<close>

record pageresponse =
  pr_rc :: int
  pr_count :: int
  pr_cookie :: berval

record search_reply =
  search_rc :: int
  search_res :: "LDAPEntry list option"
  parse_result_rc :: int
  returnedControls :: "pageresponse option"

text \<open>
  The library and the server behind it are a parameter of every operation. What the
  server answers may depend on everything sent so far: the answer to a bind or a search is
  a function of the requests sent over the handle, the newest first.
\<close>

record ldap_library =
  ldap_initialize :: "string option \<Rightarrow> int"
  ldap_set_option :: "nat \<Rightarrow> int"
  ldap_sasl_bind_s :: "request list \<Rightarrow> int"
  ldap_create_page_control :: "int \<Rightarrow> berval \<Rightarrow> char \<Rightarrow> int"
  ldap_search_ext_s :: "request list \<Rightarrow> search_reply"

subsection \<open>Exceptions\<close>

text \<open>
  \<open>ldapException\<close> carries either a literal message or \<open>ldap_err2string(ret)\<close>.
  Reading through a null pointer or past the arguments supplied is undefined behaviour in
  C++; the model gives it an outcome of its own.
\<close>

datatype what = Text string | ldap_err2string int

datatype error = ldapException what | Undefined_behaviour

subsection \<open>The object\<close>

text \<open>
  \<open>connection\<close> stands for the session handle: the requests sent over it so far, the
  newest first. \<open>released\<close> is not a member of the class: it is the part of the
  allocator's state the class acts on, the messages \<open>ldap_memfree\<close> has released.
  Reading through a pointer to a released message, or releasing it again, is undefined
  behaviour.
\<close>

record ldapReader =
  connection :: "request list"
  uri :: "string option"
  version :: nat
  bindUser :: "string option"
  bindCred :: berval
  servcred :: "berval option"
  searchBase :: "string option"
  searchFilter :: "string option"
  requestedAttributes :: "string list option"
  pageSize :: int
  pageCookie :: berval
  pageControl :: "LDAPControl option"
  controls :: "(LDAPControl option \<times> LDAPControl option) option"
  result :: "result_ptr option"
  entry :: "entry_ptr option"
  resultCount :: int
  isPagingCritical :: char
  isInitialized :: bool
  isBinded :: bool
  isCredExist :: bool
  isMorePageAvailable :: bool
  released :: "message_address list"

type_synonym 'a outcome = "(error + 'a) \<times> ldapReader"

subsection \<open>Private member functions\<close>

text \<open>
  \<open>_start\<close> assigns the members below and no other: \<open>connection\<close>, \<open>uri\<close>,
  \<open>bindUser\<close>, \<open>servcred\<close> and \<open>pageCookie\<close> keep what the memory of the new object held.
\<close>

definition u_start :: "ldapReader \<Rightarrow> ldapReader" where
  "u_start s = s\<lparr>
     isBinded := False,
     isInitialized := False,
     isCredExist := False,
     bindCred := \<lparr>bv_len = 0, bv_val = None\<rparr>,
     version := 0,
     searchBase := None,
     searchFilter := None,
     requestedAttributes := None,
     pageSize := DEFAULT_PAGE_SIZE,
     isPagingCritical := DEFAULT_PAGING_CRITICAL,
     pageControl := None,
     result := None,
     isMorePageAvailable := False,
     entry := None,
     controls := None,
     resultCount := 0\<rparr>"

definition u_setUri :: "ldapReader \<Rightarrow> string \<Rightarrow> ldapReader" where
  "u_setUri s serverUri = s\<lparr>uri := Some (c_str serverUri)\<rparr>"

definition u_setCred :: "ldapReader \<Rightarrow> string \<Rightarrow> string \<Rightarrow> ldapReader" where
  "u_setCred s bindUser' bindPass =
     (let s1 = (if isCredExist s then s\<lparr>bindCred := (bindCred s)\<lparr>bv_len := 0\<rparr>\<rparr> else s);
          s2 = s1\<lparr>bindUser := Some (c_str bindUser')\<rparr>;
          s3 = s2\<lparr>bindCred := (bindCred s2)\<lparr>bv_len := strlen bindPass\<rparr>\<rparr>;
          s4 = s3\<lparr>bindCred := (bindCred s3)\<lparr>bv_val := Some (c_str bindPass)\<rparr>\<rparr>
      in s4\<lparr>isCredExist := True\<rparr>)"

text \<open>
  A successful \<open>ldap_initialize\<close> stores a fresh handle: nothing was sent over it, and
  no message of a result of its searches exists yet, released or not.
\<close>

definition u_initialize :: "ldap_library \<Rightarrow> ldapReader \<Rightarrow> unit outcome" where
  "u_initialize lib s =
     (let ret = ldap_initialize lib (uri s) in
      if ret \<noteq> LDAP_SUCCESS then (Inl (ldapException (ldap_err2string ret)), s)
      else (Inr (), s\<lparr>connection := [], released := [], isInitialized := True\<rparr>))"

definition u_setVersion :: "ldap_library \<Rightarrow> ldapReader \<Rightarrow> nat \<Rightarrow> unit outcome" where
  "u_setVersion lib s v =
     (let s1 = s\<lparr>version := v\<rparr>;
          ret = ldap_set_option lib (version s1) in
      if ret \<noteq> LDAP_SUCCESS then (Inl (ldapException (ldap_err2string ret)), s1)
      else (Inr (), s1))"

text \<open>
  \<open>ldap_sasl_bind_s\<close> also writes \<open>servcred\<close>, which nothing reads; the model leaves
  it as it is.
\<close>

definition u_bind :: "ldap_library \<Rightarrow> ldapReader \<Rightarrow> unit outcome" where
  "u_bind lib s =
     (let s1 = s\<lparr>connection := Bind_request (bindUser s) (bindCred s) # connection s\<rparr>;
          ret = ldap_sasl_bind_s lib (connection s1) in
      if ret \<noteq> LDAP_SUCCESS then (Inl (ldapException (ldap_err2string ret)), s1)
      else (Inr (), s1\<lparr>isBinded := True\<rparr>))"

definition u_preparePageControl :: "ldap_library \<Rightarrow> ldapReader \<Rightarrow> unit outcome" where
  "u_preparePageControl lib s =
     (let s1 = (if pageControl s \<noteq> None then s\<lparr>pageControl := None\<rparr> else s);
          ret = ldap_create_page_control lib (pageSize s1) (pageCookie s1) (isPagingCritical s1) in
      if ret \<noteq> 0 then (Inl (ldapException (ldap_err2string ret)), s1)
      else (Inr (), s1\<lparr>pageControl := Some \<lparr>ldctl_pagesize = pageSize s1,
              ldctl_cookie = pageCookie s1, ldctl_iscritical = isPagingCritical s1\<rparr>\<rparr>))"

text \<open>
  The array \<open>new LDAPControl*[2]\<close> is a pair of pointers. It is allocated holding two
  null pointers here; both cells are assigned before the array is read.
\<close>

definition u_prepareControls :: "ldap_library \<Rightarrow> ldapReader \<Rightarrow> unit outcome" where
  "u_prepareControls lib s =
     (let s1 = (if controls s = None then s\<lparr>controls := Some (None, None)\<rparr> else s) in
      case u_preparePageControl lib s1 of
        (Inl e, s2) \<Rightarrow> (Inl e, s2)
      | (Inr _, s2) \<Rightarrow>
          (Inr (), s2\<lparr>controls :=
             map_option (\<lambda>a. (pageControl s2, None)) (controls s2)\<rparr>))"

text \<open>
  \<open>ldap_search_ext_s\<close> stores its result also when it fails, without releasing the
  result the member pointed to; the chain it returns is new. The two parsing calls write
  their out-parameters when they succeed. \<open>returnedControls[0]\<close> is read before
  \<open>returnedControls\<close> is compared with \<open>NULL\<close>.
\<close>

definition u_query :: "ldap_library \<Rightarrow> ldapReader \<Rightarrow> unit outcome" where
  "u_query lib s =
     (case u_prepareControls lib s of
        (Inl e, s1) \<Rightarrow> (Inl e, s1)
      | (Inr _, s1) \<Rightarrow>
          (let req = Search_request \<lparr>req_base = searchBase s1, req_filter = searchFilter s1,
                       req_attrs = requestedAttributes s1, req_controls = controls s1\<rparr>;
               s2 = s1\<lparr>connection := req # connection s1\<rparr>;
               reply = ldap_search_ext_s lib (connection s2);
               s3 = s2\<lparr>result := map_option
                      (\<lambda>es. \<lparr>res_chain = length (connection s2), res_entries = es\<rparr>)
                      (search_res reply)\<rparr> in
           if search_rc reply \<noteq> LDAP_SUCCESS
           then (Inl (ldapException (ldap_err2string (search_rc reply))), s3)
           else if parse_result_rc reply \<noteq> LDAP_SUCCESS
           then (Inl (ldapException (ldap_err2string (parse_result_rc reply))), s3)
           else (case returnedControls reply of
                   None \<Rightarrow> (Inl Undefined_behaviour, s3)
                 | Some pr \<Rightarrow>
                     if pr_rc pr \<noteq> LDAP_SUCCESS
                     then (Inl (ldapException (ldap_err2string (pr_rc pr))), s3)
                     else (let s4 = s3\<lparr>resultCount := pr_count pr, pageCookie := pr_cookie pr\<rparr> in
                           if (case bv_val (pageCookie s4) of None \<Rightarrow> False
                               | Some v \<Rightarrow> strlen v > 0)
                           then (Inr (), s4\<lparr>isMorePageAvailable := True\<rparr>)
                           else (Inr (), s4\<lparr>isMorePageAvailable := False\<rparr>)))))"

subsection \<open>Public member functions\<close>

definition bind :: "ldap_library \<Rightarrow> ldapReader \<Rightarrow> bool \<Rightarrow> unit outcome" where
  "bind lib s rebind =
     (if isBinded s \<and> \<not> rebind then (Inl (ldapException (Text ''Already binded'')), s)
      else if \<not> isCredExist s
      then (Inl (ldapException (Text ''Auth parameters doesn't exist'')), s)
      else u_bind lib s)"

definition bind3 :: "ldap_library \<Rightarrow> ldapReader \<Rightarrow> string \<Rightarrow> string \<Rightarrow> bool \<Rightarrow> unit outcome" where
  "bind3 lib s bindUser' bindPass rebind =
     (if isBinded s \<and> \<not> rebind then (Inl (ldapException (Text ''Already binded'')), s)
      else u_bind lib (u_setCred s bindUser' bindPass))"

definition setPageSize :: "ldapReader \<Rightarrow> int \<Rightarrow> ldapReader" where
  "setPageSize s ps = s\<lparr>pageSize := ps\<rparr>"

text \<open>
  The loop of \<open>query\<close> that copies \<open>attrNum\<close> variable arguments; \<open>None\<close> when it reads
  past the arguments supplied.
\<close>

fun copy_attributes :: "nat \<Rightarrow> string list \<Rightarrow> string list option" where
  "copy_attributes 0 va = Some []"
| "copy_attributes (Suc n) [] = None"
| "copy_attributes (Suc n) (buf # va) = map_option ((#) (c_str buf)) (copy_attributes n va)"

text \<open>
  \<open>ldap_memfree(this->result)\<close> releases the head message of the old result and leaves
  the member \<open>result\<close> pointing to it, as it leaves \<open>entry\<close>; \<open>_query\<close> assigns
  \<open>result\<close> when it reaches the search.
\<close>

definition ldap_memfree :: "ldapReader \<Rightarrow> message_address \<Rightarrow> ldapReader option" where
  "ldap_memfree s a = (if a \<in> set (released s) then None else Some (s\<lparr>released := a # released s\<rparr>))"

definition query :: "ldap_library \<Rightarrow> ldapReader \<Rightarrow> string \<Rightarrow> string \<Rightarrow> 32 word \<Rightarrow> string list
    \<Rightarrow> unit outcome" where
  "query lib s searchFilter' searchBase' attrNum va =
     (let s1 = s\<lparr>searchFilter := Some (c_str searchFilter')\<rparr>;
          s2 = s1\<lparr>searchBase := Some (c_str searchBase')\<rparr>;
          attributes =
            (if attrNum > 0 then
               (if attrNum > DEFAULT_MAX_NUMBER_OF_ATTRIBUTES
                then Inl (ldapException (Text ''Too many attributes requested.''))
                else (case copy_attributes (unat attrNum) va of
                        None \<Rightarrow> Inl Undefined_behaviour
                      | Some attrs \<Rightarrow> Inr (s2\<lparr>requestedAttributes := Some attrs\<rparr>)))
             else Inr s2)
      in case attributes of
           Inl e \<Rightarrow> (Inl e, s2)
         | Inr s3 \<Rightarrow>
             (case result s3 of
                None \<Rightarrow> u_query lib s3
              | Some r \<Rightarrow>
                  (case ldap_memfree s3 (result_address r) of
                     None \<Rightarrow> (Inl Undefined_behaviour, s3)
                   | Some s4 \<Rightarrow> u_query lib s4)))"

definition query2 :: "ldap_library \<Rightarrow> ldapReader \<Rightarrow> string \<Rightarrow> string \<Rightarrow> unit outcome" where
  "query2 lib s searchFilter' searchBase' = query lib s searchFilter' searchBase' 0 []"

text \<open>
  \<open>ldap_first_entry\<close> reads the message \<open>result\<close> points to and \<open>ldap_next_entry\<close> the
  message \<open>entry\<close> points to.
\<close>

function fetch :: "ldap_library \<Rightarrow> ldapReader \<Rightarrow> bool outcome" where
  "fetch lib s =
     (if result s = None then (Inr False, s)
      else if entry s = None then
        (if result_address (the (result s)) \<in> set (released s) then (Inl Undefined_behaviour, s)
         else
           (let s1 = s\<lparr>entry := ldap_first_entry (the (result s))\<rparr> in
            if entry s1 \<noteq> None then (Inr True, s1) else (Inr False, s1)))
      else
        (if entry_address (the (entry s)) \<in> set (released s) then (Inl Undefined_behaviour, s)
         else
           (let s1 = s\<lparr>entry := ldap_next_entry (the (entry s))\<rparr> in
            if entry s1 \<noteq> None then (Inr True, s1)
            else if isMorePageAvailable s1 then
              (case u_query lib s1 of
                 (Inl e, s2) \<Rightarrow> (Inl e, s2)
               | (Inr _, s2) \<Rightarrow> fetch lib s2)
            else (Inr False, s1))))"
  by pat_completeness auto
termination
proof (relation "measure (\<lambda>(lib, s). if entry s = None then 0 else 1)", goal_cases)
  case 1
  show ?case by simp
next
  case (2 lib s s1 x y b)
  have "entry (snd (u_query lib s1)) = entry s1"
    by (simp add: u_query_def u_prepareControls_def u_preparePageControl_def Let_def
        split: prod.splits sum.splits option.splits)
  then have "entry y = entry s1" using 2 by (metis snd_conv)
  then show ?case using 2 by simp
qed

declare fetch.simps [simp del]


text \<open>
  The constructors. \<open>raw\<close> is the memory of the new object before the constructor runs.
  A constructor that throws leaves no object behind.
\<close>

definition ldapReader1 :: "ldap_library \<Rightarrow> ldapReader \<Rightarrow> string \<Rightarrow> unit outcome" where
  "ldapReader1 lib raw serverUri =
     (case u_initialize lib (u_setUri (u_start raw) serverUri) of
        (Inl e, s) \<Rightarrow> (Inl e, s)
      | (Inr _, s) \<Rightarrow> u_setVersion lib s DEFAULT_LDAP_VERSION)"

definition ldapReader2 :: "ldap_library \<Rightarrow> ldapReader \<Rightarrow> string \<Rightarrow> nat \<Rightarrow> unit outcome" where
  "ldapReader2 lib raw serverUri version' =
     (case u_initialize lib (u_setUri (u_start raw) serverUri) of
        (Inl e, s) \<Rightarrow> (Inl e, s)
      | (Inr _, s) \<Rightarrow> if version' \<noteq> 0 then u_setVersion lib s version' else (Inr (), s))"

definition ldapReader3 :: "ldap_library \<Rightarrow> ldapReader \<Rightarrow> string \<Rightarrow> string \<Rightarrow> string
    \<Rightarrow> unit outcome" where
  "ldapReader3 lib raw serverUri bindUser' bindPass =
     (case ldapReader1 lib raw serverUri of
        (Inl e, s) \<Rightarrow> (Inl e, s)
      | (Inr _, s) \<Rightarrow> bind3 lib s bindUser' bindPass False)"

definition ldapReader4 :: "ldap_library \<Rightarrow> ldapReader \<Rightarrow> string \<Rightarrow> string \<Rightarrow> string \<Rightarrow> nat
    \<Rightarrow> unit outcome" where
  "ldapReader4 lib raw serverUri bindUser' bindPass version' =
     (case ldapReader2 lib raw serverUri version' of
        (Inl e, s) \<Rightarrow> (Inl e, s)
      | (Inr _, s) \<Rightarrow> bind3 lib s bindUser' bindPass False)"

subsection \<open>Releasing a value set: clearBerval\<close>

text \<open>
  \<open>clearBerval\<close> works on memory, so it is modelled over a store: a cell holds one
  \<open>struct berval\<close> or one array of pointers, and \<open>freed\<close> lists the addresses released,
  in the order of their release. Releasing an address that holds no cell of the right kind,
  or reading an array past its last cell, is undefined behaviour.
\<close>

type_synonym addr = nat

datatype cell = Berval berval | Pointers "addr option list"

record store =
  cells :: "addr \<Rightarrow> cell option"
  freed :: "addr list"

definition ber_bvfree :: "store \<Rightarrow> addr \<Rightarrow> store option" where
  "ber_bvfree h a =
     (case cells h a of
        Some (Berval _) \<Rightarrow> Some (h\<lparr>cells := (cells h)(a := None), freed := freed h @ [a]\<rparr>)
      | _ \<Rightarrow> None)"

definition delete_array :: "store \<Rightarrow> addr \<Rightarrow> store option" where
  "delete_array h a =
     (case cells h a of
        Some (Pointers _) \<Rightarrow> Some (h\<lparr>cells := (cells h)(a := None), freed := freed h @ [a]\<rparr>)
      | _ \<Rightarrow> None)"

text \<open>
  The loop \<open>for(int i=0; ptr[i] != NULL; i++) ber_bvfree(ptr[i])\<close> over the cells of the
  array from index \<open>i\<close> on. \<open>ber_bvfree\<close> releases cells holding a \<open>struct berval\<close>
  only, so the array read at the start is the array every iteration reads.
\<close>

fun free_values :: "store \<Rightarrow> addr option list \<Rightarrow> store option" where
  "free_values h [] = None"
| "free_values h (None # ps) = Some h"
| "free_values h (Some a # ps) =
     (case ber_bvfree h a of None \<Rightarrow> None | Some h' \<Rightarrow> free_values h' ps)"

definition clearBerval :: "store \<Rightarrow> addr option \<Rightarrow> store option" where
  "clearBerval h ptr =
     (case ptr of
        None \<Rightarrow> Some h
      | Some p \<Rightarrow>
          (case cells h p of
             Some (Pointers arr) \<Rightarrow>
               (case free_values h arr of None \<Rightarrow> None | Some h' \<Rightarrow> delete_array h' p)
           | _ \<Rightarrow> None))"

subsection \<open>Sessions\<close>

text \<open>\<open>fetches lib n s\<close>: what \<open>n\<close> calls of \<open>fetch\<close> in a row return, and the object after them.\<close>

fun fetches :: "ldap_library \<Rightarrow> nat \<Rightarrow> ldapReader \<Rightarrow> (error + bool) list \<times> ldapReader" where
  "fetches lib 0 s = ([], s)"
| "fetches lib (Suc n) s =
     (case fetch lib s of (r, s1) \<Rightarrow> (case fetches lib n s1 of (rs, s2) \<Rightarrow> (r # rs, s2)))"

text \<open>
  A library for concrete sessions: every call succeeds, and the \<open>k\<close>-th search sent over
  the handle is answered with the \<open>k\<close>-th page of a script, a page being its entries and
  the cookie of its response; a search beyond the script fails with return code \<open>-1\<close>.
\<close>

fun is_search :: "request \<Rightarrow> bool" where
  "is_search (Search_request r) = True"
| "is_search (Bind_request u c) = False"

definition scripted_reply :: "(LDAPEntry list \<times> berval) list \<Rightarrow> request list \<Rightarrow> search_reply" where
  "scripted_reply pages h =
     (case drop (length (filter is_search h) - 1) pages of
        [] \<Rightarrow> \<lparr>search_rc = - 1, search_res = None, parse_result_rc = 0, returnedControls = None\<rparr>
      | (es, cookie) # _ \<Rightarrow>
          \<lparr>search_rc = 0, search_res = Some es, parse_result_rc = 0,
           returnedControls = Some \<lparr>pr_rc = 0, pr_count = 0, pr_cookie = cookie\<rparr>\<rparr>)"

definition scripted_library :: "(LDAPEntry list \<times> berval) list \<Rightarrow> ldap_library" where
  "scripted_library pages = \<lparr>
     ldap_initialize = (\<lambda>u. 0),
     ldap_set_option = (\<lambda>v. 0),
     ldap_sasl_bind_s = (\<lambda>h. 0),
     ldap_create_page_control = (\<lambda>ps c crit. 0),
     ldap_search_ext_s = scripted_reply pages\<rparr>"

text \<open>The memory of a new object, for concrete sessions.\<close>

definition raw_object :: ldapReader where
  "raw_object = \<lparr>connection = [], uri = None, version = 0, bindUser = None,
     bindCred = \<lparr>bv_len = 0, bv_val = None\<rparr>, servcred = None, searchBase = None,
     searchFilter = None, requestedAttributes = None, pageSize = 0,
     pageCookie = \<lparr>bv_len = 0, bv_val = None\<rparr>, pageControl = None, controls = None,
     result = None, entry = None, resultCount = 0, isPagingCritical = CHR 0x00,
     isInitialized = False, isBinded = False, isCredExist = False,
     isMorePageAvailable = False, released = []\<rparr>"

definition empty_cookie :: berval where
  "empty_cookie = \<lparr>bv_len = 0, bv_val = Some []\<rparr>"

definition user1 :: LDAPEntry where
  "user1 = [(''sAMAccountName'', [\<lparr>bv_len = 5, bv_val = Some ''user1''\<rparr>]),
            (''memberOf'', [\<lparr>bv_len = 2, bv_val = Some ''g1''\<rparr>, \<lparr>bv_len = 2, bv_val = Some ''g2''\<rparr>,
                           \<lparr>bv_len = 2, bv_val = Some ''g3''\<rparr>]),
            (''description'', [])]"

definition user2 :: LDAPEntry where
  "user2 = [(''sAMAccountName'', [\<lparr>bv_len = 5, bv_val = Some ''user2''\<rparr>])]"

definition user3 :: LDAPEntry where
  "user3 = [(''sAMAccountName'', [\<lparr>bv_len = 5, bv_val = Some ''user3''\<rparr>])]"

definition user4 :: LDAPEntry where
  "user4 = [(''sAMAccountName'', [\<lparr>bv_len = 5, bv_val = Some ''user4''\<rparr>])]"

definition user5 :: LDAPEntry where
  "user5 = [(''sAMAccountName'', [\<lparr>bv_len = 5, bv_val = Some ''user5''\<rparr>])]"

definition cookie_c1 :: berval where
  "cookie_c1 = \<lparr>bv_len = 2, bv_val = Some ''c1''\<rparr>"

definition cookie_c2 :: berval where
  "cookie_c2 = \<lparr>bv_len = 2, bv_val = Some ''c2''\<rparr>"

definition nul_cookie :: berval where
  "nul_cookie = \<lparr>bv_len = 2, bv_val = Some [CHR 0x00, CHR 0x01]\<rparr>"

definition one_page_library :: ldap_library where
  "one_page_library = scripted_library [([user1], empty_cookie)]"

definition nul_cookie_library :: ldap_library where
  "nul_cookie_library = scripted_library [([user1], nul_cookie), ([user2], empty_cookie)]"

definition two_query_library :: ldap_library where
  "two_query_library = scripted_library
     [([user1, user2, user3], cookie_c1), ([user4], cookie_c2), ([user5], empty_cookie)]"

definition three_entries_library :: ldap_library where
  "three_entries_library = scripted_library [([user1, user2], cookie_c1), ([user3], empty_cookie)]"

definition empty_page_library :: ldap_library where
  "empty_page_library =
     scripted_library [([user1], cookie_c1), ([], cookie_c2), ([user2], empty_cookie)]"

text \<open>
  A session: the object right after a constructor, and after one query for all
  attributes, over a given library.
\<close>

definition opened :: "ldap_library \<Rightarrow> ldapReader" where
  "opened lib = snd (ldapReader1 lib raw_object ''ldap://ldapserver.example.org'')"

definition queried :: "ldap_library \<Rightarrow> ldapReader" where
  "queried lib = snd (query2 lib (opened lib) ''(objectClass=user)'' ''ou=users,dc=example,dc=org'')"

text \<open>
  The objects a program can hold: those a constructor returned without throwing, and
  those left by any public member function called on such an object, whether the call
  returned or threw.
\<close>

inductive reachable :: "ldap_library \<Rightarrow> ldapReader \<Rightarrow> bool" for lib :: ldap_library where
  new1: "ldapReader1 lib raw serverUri = (Inr (), s) \<Longrightarrow> reachable lib s"
| new2: "ldapReader2 lib raw serverUri v = (Inr (), s) \<Longrightarrow> reachable lib s"
| new3: "ldapReader3 lib raw serverUri u p = (Inr (), s) \<Longrightarrow> reachable lib s"
| new4: "ldapReader4 lib raw serverUri u p v = (Inr (), s) \<Longrightarrow> reachable lib s"
| after_bind: "reachable lib s \<Longrightarrow> reachable lib (snd (bind lib s rebind))"
| after_bind3: "reachable lib s \<Longrightarrow> reachable lib (snd (bind3 lib s u p rebind))"
| after_setPageSize: "reachable lib s \<Longrightarrow> reachable lib (setPageSize s ps)"
| after_query: "reachable lib s \<Longrightarrow> reachable lib (snd (query lib s f b attrNum va))"
| after_fetch: "reachable lib s \<Longrightarrow> reachable lib (snd (fetch lib s))"

definition bound_session :: ldapReader where
  "bound_session = snd (bind3 one_page_library (opened one_page_library)
     ''cn=ldapbinduser,dc=example,dc=org'' ''Password'' False)"


text \<open>
  Over \<open>two_query_library\<close>: the object after a query that names two attributes, and
  the object after a query for all attributes and \<open>n\<close> calls of \<open>fetch\<close>; then a second
  query on the latter.
\<close>

definition explicit_session :: ldapReader where
  "explicit_session = snd (query two_query_library (opened two_query_library)
     ''(objectClass=user)'' ''ou=users,dc=example,dc=org'' 2 [''sAMAccountName'', ''memberOf''])"

definition positioned :: "nat \<Rightarrow> ldapReader" where
  "positioned n = snd (fetches two_query_library n (queried two_query_library))"

definition requeried :: "nat \<Rightarrow> ldapReader" where
  "requeried n = snd (query two_query_library (positioned n)
     ''(objectClass=group)'' ''ou=groups,dc=example,dc=org'' 0 [])"

definition example_store :: store where
  "example_store = \<lparr>
     cells = (\<lambda>a. if a = 1 then Some (Pointers [Some 2, Some 3, None])
                  else if a = 2 then Some (Berval \<lparr>bv_len = 1, bv_val = Some ''a''\<rparr>)
                  else if a = 3 then Some (Berval \<lparr>bv_len = 1, bv_val = Some ''b''\<rparr>)
                  else None),
     freed = []\<rparr>"

text \<open>
  The chains named by the object's result pointer and by the released messages are chains
  of searches already sent, so the chain of the next search is new.
\<close>

definition addresses_bounded :: "ldapReader \<Rightarrow> bool" where
  "addresses_bounded s =
     ((\<forall>a\<in>set (released s). fst a \<le> length (connection s)) \<and>
      (\<forall>r\<in>set_option (result s). res_chain r \<le> length (connection s)))"

text \<open>A bound object has credentials.\<close>

definition cred_inv :: "ldapReader \<Rightarrow> bool" where
  "cred_inv s = (isBinded s \<longrightarrow> isCredExist s)"

section \<open>Properties\<close>

subsection \<open>Page execution\<close>

lemma u_prepareControls_failed:
  assumes "ldap_create_page_control lib (pageSize s) (pageCookie s) (isPagingCritical s) \<noteq> 0"
  shows "u_prepareControls lib s =
     (Inl (ldapException (ldap_err2string
        (ldap_create_page_control lib (pageSize s) (pageCookie s) (isPagingCritical s)))),
      s\<lparr>controls := Some (case controls s of None \<Rightarrow> (None, None) | Some a \<Rightarrow> a),
        pageControl := None\<rparr>)"
  using assms
  by (cases "controls s"; cases "pageControl s")
     (simp_all add: u_prepareControls_def u_preparePageControl_def)

lemma u_prepareControls_ok:
  assumes "ldap_create_page_control lib (pageSize s) (pageCookie s) (isPagingCritical s) = 0"
  shows "u_prepareControls lib s =
     (Inr (),
      s\<lparr>pageControl := Some \<lparr>ldctl_pagesize = pageSize s, ldctl_cookie = pageCookie s,
            ldctl_iscritical = isPagingCritical s\<rparr>,
        controls := Some (Some \<lparr>ldctl_pagesize = pageSize s, ldctl_cookie = pageCookie s,
            ldctl_iscritical = isPagingCritical s\<rparr>, None)\<rparr>)"
  using assms
  by (cases "controls s"; cases "pageControl s")
     (simp_all add: u_prepareControls_def u_preparePageControl_def)

lemma u_query_control_failed:
  assumes "ldap_create_page_control lib (pageSize s) (pageCookie s) (isPagingCritical s) \<noteq> 0"
  shows "connection (snd (u_query lib s)) = connection s \<and> (\<exists>e. fst (u_query lib s) = Inl e)"
  by (simp add: u_query_def u_prepareControls_failed [OF assms])

lemma u_query_sends:
  assumes "ldap_create_page_control lib (pageSize s) (pageCookie s) (isPagingCritical s) = 0"
  shows "connection (snd (u_query lib s)) =
     Search_request \<lparr>req_base = searchBase s, req_filter = searchFilter s,
       req_attrs = requestedAttributes s,
       req_controls = Some (Some \<lparr>ldctl_pagesize = pageSize s, ldctl_cookie = pageCookie s,
          ldctl_iscritical = isPagingCritical s\<rparr>, None)\<rparr> # connection s"
  by (simp add: u_query_def u_prepareControls_ok [OF assms] Let_def split: option.splits)

lemma u_query_frame:
  "entry (snd (u_query lib s)) = entry s"
  "isBinded (snd (u_query lib s)) = isBinded s"
  "isCredExist (snd (u_query lib s)) = isCredExist s"
  "requestedAttributes (snd (u_query lib s)) = requestedAttributes s"
  "pageSize (snd (u_query lib s)) = pageSize s"
  "released (snd (u_query lib s)) = released s"
proof -
  let ?c = "ldap_create_page_control lib (pageSize s) (pageCookie s) (isPagingCritical s)"
  have "entry (snd (u_query lib s)) = entry s \<and> isBinded (snd (u_query lib s)) = isBinded s \<and>
    isCredExist (snd (u_query lib s)) = isCredExist s \<and>
    requestedAttributes (snd (u_query lib s)) = requestedAttributes s \<and>
    pageSize (snd (u_query lib s)) = pageSize s \<and>
    released (snd (u_query lib s)) = released s"
  proof (cases "?c = 0")
    case True
    show ?thesis
      by (simp add: u_query_def u_prepareControls_ok [OF True] Let_def split: option.splits)
  next
    case False
    show ?thesis
      by (simp add: u_query_def u_prepareControls_failed [OF False])
  qed
  then show "entry (snd (u_query lib s)) = entry s"
    "isBinded (snd (u_query lib s)) = isBinded s"
    "isCredExist (snd (u_query lib s)) = isCredExist s"
    "requestedAttributes (snd (u_query lib s)) = requestedAttributes s"
    "pageSize (snd (u_query lib s)) = pageSize s"
    "released (snd (u_query lib s)) = released s"
    by simp_all
qed

lemma u_query_success:
  assumes "fst (u_query lib s) = Inr ()"
  shows "ldap_create_page_control lib (pageSize s) (pageCookie s) (isPagingCritical s) = 0"
proof (rule ccontr)
  assume "ldap_create_page_control lib (pageSize s) (pageCookie s) (isPagingCritical s) \<noteq> 0"
  from u_query_control_failed [OF this] assms show False by auto
qed

lemma u_query_more_pages:
  "fst (u_query lib s) = Inr () \<longrightarrow>
   isMorePageAvailable (snd (u_query lib s)) =
     (case bv_val (pageCookie (snd (u_query lib s))) of None \<Rightarrow> False | Some v \<Rightarrow> 0 < strlen v)"
proof (cases "ldap_create_page_control lib (pageSize s) (pageCookie s) (isPagingCritical s) = 0")
  case True
  show ?thesis
    by (simp add: u_query_def u_prepareControls_ok [OF True] Let_def split: option.splits)
next
  case False
  show ?thesis
    by (simp add: u_query_def u_prepareControls_failed [OF False])
qed

subsection \<open>query\<close>

text \<open>
  \<open>query\<close> in one piece: the two checks of the attribute block, then the release of the
  old result, then the page execution.
\<close>

lemma query_unfold:
  "query lib s f b attrNum va =
     (if 0 < attrNum \<and> DEFAULT_MAX_NUMBER_OF_ATTRIBUTES < attrNum
      then (Inl (ldapException (Text ''Too many attributes requested.'')),
            s\<lparr>searchFilter := Some (c_str f), searchBase := Some (c_str b)\<rparr>)
      else if 0 < attrNum \<and> copy_attributes (unat attrNum) va = None
      then (Inl Undefined_behaviour, s\<lparr>searchFilter := Some (c_str f), searchBase := Some (c_str b)\<rparr>)
      else if \<exists>r. result s = Some r \<and> result_address r \<in> set (released s)
      then (Inl Undefined_behaviour,
            s\<lparr>searchFilter := Some (c_str f), searchBase := Some (c_str b),
              requestedAttributes :=
                (if 0 < attrNum then copy_attributes (unat attrNum) va else requestedAttributes s)\<rparr>)
      else u_query lib
            (s\<lparr>searchFilter := Some (c_str f), searchBase := Some (c_str b),
               requestedAttributes :=
                 (if 0 < attrNum then copy_attributes (unat attrNum) va else requestedAttributes s),
               released :=
                 (case result s of None \<Rightarrow> released s
                  | Some r \<Rightarrow> result_address r # released s)\<rparr>))"
proof (cases "result s")
  case None
  then show ?thesis
    by (cases "copy_attributes (unat attrNum) va") (simp_all add: query_def Let_def)
next
  case (Some r)
  then show ?thesis
    by (cases "copy_attributes (unat attrNum) va")
       (simp_all add: query_def ldap_memfree_def Let_def)
qed

lemma query_frame:
  "isBinded (snd (query lib s f b attrNum va)) = isBinded s"
  "isCredExist (snd (query lib s f b attrNum va)) = isCredExist s"
  "entry (snd (query lib s f b attrNum va)) = entry s"
  by (simp_all add: query_unfold u_query_frame)

lemma query_runs:
  assumes "\<not> (0 < attrNum \<and> DEFAULT_MAX_NUMBER_OF_ATTRIBUTES < attrNum)"
    "\<not> (0 < attrNum \<and> copy_attributes (unat attrNum) va = None)"
    "\<not> (\<exists>r. result s = Some r \<and> result_address r \<in> set (released s))"
  shows "query lib s f b attrNum va =
     u_query lib
       (s\<lparr>searchFilter := Some (c_str f), searchBase := Some (c_str b),
          requestedAttributes :=
            (if 0 < attrNum then copy_attributes (unat attrNum) va else requestedAttributes s),
          released :=
            (case result s of None \<Rightarrow> released s
             | Some r \<Rightarrow> result_address r # released s)\<rparr>)"
  unfolding query_unfold [of lib s f b attrNum va] using assms by (simp only: if_False)

lemma query_released_result:
  assumes "result s = Some r" "result_address r \<in> set (released s)"
  shows "\<exists>e. fst (query lib s f b attrNum va) = Inl e"
    "connection (snd (query lib s f b attrNum va)) = connection s"
  using assms by (auto simp: query_unfold)

lemma u_query_cookie:
  "fst (u_query lib s) = Inr () \<longrightarrow>
   (\<exists>pr. returnedControls (ldap_search_ext_s lib (connection (snd (u_query lib s)))) = Some pr
      \<and> pageCookie (snd (u_query lib s)) = pr_cookie pr)"
proof (cases "ldap_create_page_control lib (pageSize s) (pageCookie s) (isPagingCritical s) = 0")
  case True
  show ?thesis
    by (simp add: u_query_def u_prepareControls_ok [OF True] Let_def split: option.splits)
next
  case False
  show ?thesis
    by (simp add: u_query_def u_prepareControls_failed [OF False])
qed

lemma query_success:
  assumes "fst (query lib s f b attrNum va) = Inr ()"
  shows "\<exists>s2. query lib s f b attrNum va = u_query lib s2 \<and> entry s2 = entry s \<and>
     connection s2 = connection s \<and> pageSize s2 = pageSize s \<and> pageCookie s2 = pageCookie s \<and>
     isPagingCritical s2 = isPagingCritical s \<and>
     released s2 = (case result s of None \<Rightarrow> released s | Some r \<Rightarrow> result_address r # released s)"
proof -
  let ?s2 = "s\<lparr>searchFilter := Some (c_str f), searchBase := Some (c_str b),
       requestedAttributes :=
         (if 0 < attrNum then copy_attributes (unat attrNum) va else requestedAttributes s),
       released :=
         (case result s of None \<Rightarrow> released s | Some r \<Rightarrow> result_address r # released s)\<rparr>"
  have 1: "\<not> (0 < attrNum \<and> DEFAULT_MAX_NUMBER_OF_ATTRIBUTES < attrNum)"
  proof
    assume "0 < attrNum \<and> DEFAULT_MAX_NUMBER_OF_ATTRIBUTES < attrNum"
    then have "\<exists>e. fst (query lib s f b attrNum va) = Inl e" by (simp add: query_unfold)
    with assms show False by auto
  qed
  have 2: "\<not> (0 < attrNum \<and> copy_attributes (unat attrNum) va = None)"
  proof
    assume "0 < attrNum \<and> copy_attributes (unat attrNum) va = None"
    then have "\<exists>e. fst (query lib s f b attrNum va) = Inl e" by (simp add: query_unfold)
    with assms show False by auto
  qed
  have 3: "\<not> (\<exists>r. result s = Some r \<and> result_address r \<in> set (released s))"
  proof
    assume "\<exists>r. result s = Some r \<and> result_address r \<in> set (released s)"
    then obtain r where "result s = Some r" "result_address r \<in> set (released s)" by blast
    from query_released_result(1) [OF this, of lib f b attrNum va] assms show False by auto
  qed
  have "query lib s f b attrNum va = u_query lib ?s2" by (rule query_runs [OF 1 2 3])
  then show ?thesis by (intro exI [of _ ?s2]) simp
qed

subsection \<open>The cursor\<close>

lemma fetch_no_result: "result s = None \<Longrightarrow> fetch lib s = (Inr False, s)"
  by (simp add: fetch.simps [of lib s])

lemma fetch_first:
  "result s = Some r \<Longrightarrow> entry s = None \<Longrightarrow> result_address r \<notin> set (released s) \<Longrightarrow>
   fetch lib s = (Inr (res_entries r \<noteq> []), s\<lparr>entry := ldap_first_entry r\<rparr>)"
  by (simp add: fetch.simps [of lib s] ldap_first_entry_def split: list.splits)

lemma fetch_first_released:
  "result s = Some r \<Longrightarrow> entry s = None \<Longrightarrow> result_address r \<in> set (released s) \<Longrightarrow>
   fetch lib s = (Inl Undefined_behaviour, s)"
  by (simp add: fetch.simps [of lib s])

lemma fetch_released:
  "result s = Some r \<Longrightarrow> entry s = Some p \<Longrightarrow> entry_address p \<in> set (released s) \<Longrightarrow>
   fetch lib s = (Inl Undefined_behaviour, s)"
  by (simp add: fetch.simps [of lib s])

lemma fetch_next:
  "result s = Some r \<Longrightarrow> entry s = Some p \<Longrightarrow> entry_address p \<notin> set (released s) \<Longrightarrow>
   ent_rest p = e # es \<Longrightarrow>
   fetch lib s = (Inr True, s\<lparr>entry := Some \<lparr>ent_chain = ent_chain p,
      ent_index = Suc (ent_index p), ent_entry = e, ent_rest = es\<rparr>\<rparr>)"
  by (simp add: fetch.simps [of lib s] ldap_next_entry_def)

lemma fetch_last:
  "result s = Some r \<Longrightarrow> entry s = Some p \<Longrightarrow> entry_address p \<notin> set (released s) \<Longrightarrow>
   ent_rest p = [] \<Longrightarrow> \<not> isMorePageAvailable s \<Longrightarrow>
   fetch lib s = (Inr False, s\<lparr>entry := None\<rparr>)"
  by (simp add: fetch.simps [of lib s] ldap_next_entry_def)

lemma fetch_more:
  assumes "result s = Some r" "entry s = Some p" "entry_address p \<notin> set (released s)"
    "ent_rest p = []" "isMorePageAvailable s"
  shows "fetch lib s =
     (case u_query lib (s\<lparr>entry := None\<rparr>) of
        (Inl err, s2) \<Rightarrow> (Inl err, s2)
      | (Inr _, s2) \<Rightarrow>
          (case result s2 of
             None \<Rightarrow> (Inr False, s2)
           | Some r2 \<Rightarrow>
               if result_address r2 \<in> set (released s2) then (Inl Undefined_behaviour, s2)
               else (Inr (res_entries r2 \<noteq> []), s2\<lparr>entry := ldap_first_entry r2\<rparr>)))"
proof -
  obtain x s2 where q: "u_query lib (s\<lparr>entry := None\<rparr>) = (x, s2)"
    by (cases "u_query lib (s\<lparr>entry := None\<rparr>)")
  have e2: "entry s2 = None" using u_query_frame(1) [of lib "s\<lparr>entry := None\<rparr>"] q by simp
  have 1: "fetch lib s = (case x of Inl err \<Rightarrow> (Inl err, s2) | Inr _ \<Rightarrow> fetch lib s2)"
    using assms q by (simp add: fetch.simps [of lib s] ldap_next_entry_def)
  have 2: "fetch lib s2 = (case result s2 of None \<Rightarrow> (Inr False, s2)
           | Some r2 \<Rightarrow>
               if result_address r2 \<in> set (released s2) then (Inl Undefined_behaviour, s2)
               else (Inr (res_entries r2 \<noteq> []), s2\<lparr>entry := ldap_first_entry r2\<rparr>))"
    using e2 by (cases "result s2") (simp_all add: fetch_no_result fetch_first fetch_first_released)
  show ?thesis unfolding 1 2 q by (simp split: sum.splits)
qed

lemma fetch_no_more_pages:
  "\<not> isMorePageAvailable s \<Longrightarrow> connection (snd (fetch lib s)) = connection s"
  by (simp add: fetch.simps [of lib s] Let_def)

text \<open>
  What \<open>fetch\<close> does to the object: nothing, or an assignment to \<open>entry\<close>, or one page
  execution with \<open>entry\<close> null and possibly an assignment to \<open>entry\<close> after it.
\<close>

lemma fetch_state:
  "snd (fetch lib s) = s\<lparr>entry := entry (snd (fetch lib s))\<rparr> \<or>
   snd (fetch lib s) = (snd (u_query lib (s\<lparr>entry := None\<rparr>)))\<lparr>entry := entry (snd (fetch lib s))\<rparr>"
proof (cases "result s")
  case None
  then show ?thesis by (simp add: fetch_no_result)
next
  case (Some r)
  note r = this
  show ?thesis
  proof (cases "entry s")
    case None
    show ?thesis
    proof (cases "result_address r \<in> set (released s)")
      case True
      show ?thesis by (simp add: fetch_first_released [OF r None True])
    next
      case False
      show ?thesis by (simp add: fetch_first [OF r None False])
    qed
  next
    case (Some p)
    note p = this
    show ?thesis
    proof (cases "entry_address p \<in> set (released s)")
      case True
      show ?thesis by (simp add: fetch_released [OF r p True])
    next
      case False
      note live = this
      show ?thesis
      proof (cases "ent_rest p")
        case (Cons e es)
        show ?thesis by (simp add: fetch_next [OF r p live Cons])
      next
        case Nil
        show ?thesis
        proof (cases "isMorePageAvailable s")
          case False
          show ?thesis by (simp add: fetch_last [OF r p live Nil False])
        next
          case True
          obtain x s2 where q: "u_query lib (s\<lparr>entry := None\<rparr>) = (x, s2)"
            by (cases "u_query lib (s\<lparr>entry := None\<rparr>)")
          have f: "fetch lib s =
            (case x of Inl err \<Rightarrow> (Inl err, s2)
             | Inr _ \<Rightarrow> (case result s2 of None \<Rightarrow> (Inr False, s2)
                | Some r2 \<Rightarrow>
                    if result_address r2 \<in> set (released s2) then (Inl Undefined_behaviour, s2)
                    else (Inr (res_entries r2 \<noteq> []), s2\<lparr>entry := ldap_first_entry r2\<rparr>)))"
            using fetch_more [OF r p live Nil True, of lib] q by (simp split: sum.splits)
          have "snd (fetch lib s) = s2\<lparr>entry := entry (snd (fetch lib s))\<rparr>"
          proof (cases x)
            case (Inl err)
            then show ?thesis by (simp add: f)
          next
            case (Inr u)
            show ?thesis
            proof (cases "result s2")
              case None
              then show ?thesis using Inr by (simp add: f)
            next
              case (Some r2)
              then show ?thesis using Inr
                by (cases "result_address r2 \<in> set (released s2)") (simp_all add: f)
            qed
          qed
          then show ?thesis using q by simp
        qed
      qed
    qed
  qed
qed

lemma fetch_frame:
  "isBinded (snd (fetch lib s)) = isBinded s \<and> isCredExist (snd (fetch lib s)) = isCredExist s"
proof -
  let ?e = "entry (snd (fetch lib s))"
  let ?q = "snd (u_query lib (s\<lparr>entry := None\<rparr>))"
  have 1: "isBinded (s\<lparr>entry := ?e\<rparr>) = isBinded s" "isCredExist (s\<lparr>entry := ?e\<rparr>) = isCredExist s"
    by simp_all
  have 2: "isBinded (?q\<lparr>entry := ?e\<rparr>) = isBinded s" "isCredExist (?q\<lparr>entry := ?e\<rparr>) = isCredExist s"
    using u_query_frame(2,3) [of lib "s\<lparr>entry := None\<rparr>"] by simp_all
  from fetch_state [of lib s] show ?thesis
  proof
    assume "snd (fetch lib s) = s\<lparr>entry := ?e\<rparr>"
    then show ?thesis using 1 by metis
  next
    assume "snd (fetch lib s) = ?q\<lparr>entry := ?e\<rparr>"
    then show ?thesis using 2 by metis
  qed
qed

text \<open>An object on which no query was executed holds no result.\<close>

lemma bind3_result: "result (snd (bind3 lib s u p rebind)) = result s"
  by (simp add: bind3_def u_bind_def u_setCred_def Let_def)

lemma new1_no_result: "result (snd (ldapReader1 lib raw serverUri)) = None"
  by (simp add: ldapReader1_def u_initialize_def u_setVersion_def u_setUri_def u_start_def Let_def)

lemma new2_no_result: "result (snd (ldapReader2 lib raw serverUri v)) = None"
  by (simp add: ldapReader2_def u_initialize_def u_setVersion_def u_setUri_def u_start_def Let_def)

lemma new3_no_result: "result (snd (ldapReader3 lib raw serverUri u p)) = None"
  using new1_no_result [of lib raw serverUri]
  by (cases "ldapReader1 lib raw serverUri")
     (auto simp: ldapReader3_def bind3_result split: sum.splits)

lemma new4_no_result: "result (snd (ldapReader4 lib raw serverUri u p v)) = None"
  using new2_no_result [of lib raw serverUri v]
  by (cases "ldapReader2 lib raw serverUri v")
     (auto simp: ldapReader4_def bind3_result split: sum.splits)

text \<open>
  One page without a successor, none of whose messages is released: from an entry on,
  \<open>fetch\<close> returns true once for each entry left and then false. The call after that
  starts the same page again.
\<close>

lemma fetches_page_rest:
  "result s = Some r \<Longrightarrow> entry s = Some p \<Longrightarrow> ent_rest p = es \<Longrightarrow>
   \<forall>a\<in>set (released s). fst a \<noteq> ent_chain p \<Longrightarrow> \<not> isMorePageAvailable s \<Longrightarrow>
   fetches lib (Suc (length es)) s = (replicate (length es) (Inr True) @ [Inr False], s\<lparr>entry := None\<rparr>)"
proof (induction es arbitrary: s p)
  case Nil
  have "entry_address p \<notin> set (released s)" using Nil.prems(4) by (auto simp: entry_address_def)
  then have "fetch lib s = (Inr False, s\<lparr>entry := None\<rparr>)"
    using Nil.prems by (intro fetch_last [of s r p lib]) simp_all
  then show ?case by simp
next
  case (Cons e es)
  let ?p = "\<lparr>ent_chain = ent_chain p, ent_index = Suc (ent_index p), ent_entry = e, ent_rest = es\<rparr>"
  let ?s = "s\<lparr>entry := Some ?p\<rparr>"
  have "entry_address p \<notin> set (released s)" using Cons.prems(4) by (auto simp: entry_address_def)
  then have 1: "fetch lib s = (Inr True, ?s)"
    using Cons.prems by (intro fetch_next [of s r p e es lib]) simp_all
  have 2: "fetches lib (Suc (length es)) ?s
      = (replicate (length es) (Inr True) @ [Inr False], ?s\<lparr>entry := None\<rparr>)"
    using Cons.prems by (intro Cons.IH [of ?s ?p]) simp_all
  have "fetches lib (Suc (length (e # es))) s
      = (Inr True # replicate (length es) (Inr True) @ [Inr False], ?s\<lparr>entry := None\<rparr>)"
    using 1 2 by simp
  then show ?case by simp
qed

lemma fetches_Suc_end:
  "fetches lib (Suc n) s =
     (case fetches lib n s of (rs, s1) \<Rightarrow> (case fetch lib s1 of (r, s2) \<Rightarrow> (rs @ [r], s2)))"
proof (induction n arbitrary: s)
  case 0
  show ?case by (simp split: prod.splits)
next
  case (Suc n)
  obtain r s1 where f: "fetch lib s = (r, s1)" by (cases "fetch lib s")
  obtain rs s2 where g: "fetches lib n s1 = (rs, s2)" by (cases "fetches lib n s1")
  obtain r' s3 where h: "fetch lib s2 = (r', s3)" by (cases "fetch lib s2")
  have 1: "fetches lib (Suc n) s1 = (rs @ [r'], s3)"
    unfolding Suc.IH [of s1] by (simp add: g h)
  have 2: "fetches lib (Suc n) s = (r # rs, s2)"
    by (simp add: f g)
  have "fetches lib (Suc (Suc n)) s = (r # rs @ [r'], s3)"
    unfolding fetches.simps(2) [of lib "Suc n" s] by (simp add: f 1 del: fetches.simps)
  then show ?case unfolding 2 by (simp add: h del: fetches.simps)
qed

lemma fetch_restarts_on_any_page:
  assumes "result s = Some r" "res_entries r = e # es" "entry s = None"
    "\<forall>a\<in>set (released s). fst a \<noteq> res_chain r" "\<not> isMorePageAvailable s"
  shows "fetches lib (length es + 3) s =
     (replicate (Suc (length es)) (Inr True) @ [Inr False, Inr True],
      s\<lparr>entry := ldap_first_entry r\<rparr>)"
proof -
  let ?p = "\<lparr>ent_chain = res_chain r, ent_index = 0, ent_entry = e, ent_rest = es\<rparr>"
  let ?s1 = "s\<lparr>entry := Some ?p\<rparr>"
  let ?s2 = "s\<lparr>entry := None\<rparr>"
  have f: "ldap_first_entry r = Some ?p" using assms(2) by (simp add: ldap_first_entry_def)
  have live: "result_address r \<notin> set (released s)"
    using assms(4) by (auto simp: result_address_def)
  have 1: "fetch lib s = (Inr True, ?s1)"
    using assms live fetch_first [of s r lib] by (simp add: f)
  have 2: "fetches lib (Suc (length es)) ?s1 = (replicate (length es) (Inr True) @ [Inr False], ?s2)"
    using assms fetches_page_rest [of ?s1 r ?p es lib] by simp
  have 3: "fetch lib ?s2 = (Inr True, ?s1)"
    using assms live fetch_first [of ?s2 r lib] by (simp add: f)
  have 4: "fetches lib (Suc (Suc (length es))) s
      = (Inr True # replicate (length es) (Inr True) @ [Inr False], ?s2)"
    using 1 2 by (simp del: replicate.simps)
  have 5: "fetches lib (Suc (Suc (Suc (length es)))) s =
      (replicate (Suc (length es)) (Inr True) @ [Inr False, Inr True], ?s1)"
    using 3 4 fetches_Suc_end [of lib "Suc (Suc (length es))" s] by (simp del: fetches.simps)
  have 6: "length es + 3 = Suc (Suc (Suc (length es)))" by simp
  show ?thesis unfolding 6 f by (rule 5)
qed

text \<open>
  Three entries on pages of two: \<open>fetch\<close> returns true three times and then false, and
  two searches are sent. An empty page in the middle stops the cursor although more pages
  are flagged: the entry of the third page is never delivered.
\<close>

lemma three_entries_two_pages:
  "fst (fetches three_entries_library 4 (queried three_entries_library))
     = [Inr True, Inr True, Inr True, Inr False]
   \<and> length (connection (snd (fetches three_entries_library 4 (queried three_entries_library)))) = 2"
  by code_simp

lemma empty_page_stops_cursor:
  "fst (fetches empty_page_library 4 (queried empty_page_library))
     = [Inr True, Inr False, Inr False, Inr False]
   \<and> isMorePageAvailable (snd (fetches empty_page_library 4 (queried empty_page_library)))"
  by code_simp

subsection \<open>Bound objects have credentials\<close>

lemma new1_unbound:
  "ldapReader1 lib raw serverUri = (r, s) \<Longrightarrow> \<not> isBinded s"
  by (auto simp: ldapReader1_def u_initialize_def u_setVersion_def u_setUri_def u_start_def Let_def
      split: prod.splits sum.splits if_splits)

lemma new2_unbound:
  "ldapReader2 lib raw serverUri v = (r, s) \<Longrightarrow> \<not> isBinded s"
  by (auto simp: ldapReader2_def u_initialize_def u_setVersion_def u_setUri_def u_start_def Let_def
      split: prod.splits sum.splits if_splits)

lemma bind_inv: "cred_inv s \<Longrightarrow> cred_inv (snd (bind lib s rebind))"
  by (auto simp: cred_inv_def bind_def u_bind_def Let_def)

lemma bind3_inv: "cred_inv s \<Longrightarrow> cred_inv (snd (bind3 lib s u p rebind))"
  by (auto simp: cred_inv_def bind3_def u_bind_def u_setCred_def Let_def)

lemma query_inv: "cred_inv s \<Longrightarrow> cred_inv (snd (query lib s f b attrNum va))"
  by (simp add: cred_inv_def query_frame)

lemma reachable_cred_inv: "reachable lib s \<Longrightarrow> cred_inv s"
proof (induction rule: reachable.induct)
  case (new1 raw serverUri s)
  then show ?case using new1_unbound by (simp add: cred_inv_def)
next
  case (new2 raw serverUri v s)
  then show ?case using new2_unbound by (simp add: cred_inv_def)
next
  case (new3 raw serverUri u p s)
  then obtain s0 where "ldapReader1 lib raw serverUri = (Inr (), s0)" "bind3 lib s0 u p False = (Inr (), s)"
    by (auto simp: ldapReader3_def split: prod.splits sum.splits)
  then have "cred_inv s0" "s = snd (bind3 lib s0 u p False)" using new1_unbound by (auto simp: cred_inv_def)
  then show ?case using bind3_inv by simp
next
  case (new4 raw serverUri u p v s)
  then obtain s0 where "ldapReader2 lib raw serverUri v = (Inr (), s0)" "bind3 lib s0 u p False = (Inr (), s)"
    by (auto simp: ldapReader4_def split: prod.splits sum.splits)
  then have "cred_inv s0" "s = snd (bind3 lib s0 u p False)" using new2_unbound by (auto simp: cred_inv_def)
  then show ?case using bind3_inv by simp
next
  case (after_bind s rebind)
  then show ?case by (simp add: bind_inv)
next
  case (after_bind3 s u p rebind)
  then show ?case by (simp add: bind3_inv)
next
  case (after_setPageSize s ps)
  then show ?case by (simp add: cred_inv_def setPageSize_def)
next
  case (after_query s f b attrNum va)
  then show ?case by (simp add: query_inv)
next
  case (after_fetch s)
  then show ?case using fetch_frame [of lib s] by (simp add: cred_inv_def)
qed

text \<open>The chain of a new result is new: its head has not been released.\<close>

lemma u_query_bounded: "addresses_bounded s \<Longrightarrow> addresses_bounded (snd (u_query lib s))"
proof (cases "ldap_create_page_control lib (pageSize s) (pageCookie s) (isPagingCritical s) = 0")
  case True
  assume "addresses_bounded s"
  then show ?thesis
    by (auto simp add: addresses_bounded_def u_query_def u_prepareControls_ok [OF True] Let_def
        split: option.splits)
next
  case False
  assume "addresses_bounded s"
  then show ?thesis
    by (simp add: addresses_bounded_def u_query_def u_prepareControls_failed [OF False])
qed

lemma u_query_fresh:
  assumes "addresses_bounded s" "fst (u_query lib s) = Inr ()" "result (snd (u_query lib s)) = Some r"
  shows "result_address r \<notin> set (released (snd (u_query lib s)))"
proof -
  have c: "ldap_create_page_control lib (pageSize s) (pageCookie s) (isPagingCritical s) = 0"
    by (rule u_query_success [OF assms(2)])
  have "res_chain r = Suc (length (connection s))"
    using assms(3) by (auto simp add: u_query_def u_prepareControls_ok [OF c] Let_def
        split: option.splits if_splits)
  moreover have "\<forall>a\<in>set (released s). fst a \<le> length (connection s)"
    using assms(1) by (simp add: addresses_bounded_def)
  ultimately show ?thesis by (auto simp: u_query_frame(6) result_address_def)
qed

lemma bind_bounded: "addresses_bounded s \<Longrightarrow> addresses_bounded (snd (bind lib s rebind))"
  by (auto simp: addresses_bounded_def bind_def u_bind_def Let_def split: option.splits)

lemma bind3_bounded: "addresses_bounded s \<Longrightarrow> addresses_bounded (snd (bind3 lib s u p rebind))"
  by (auto simp: addresses_bounded_def bind3_def u_bind_def u_setCred_def Let_def split: option.splits)

lemma query_bounded:
  assumes "addresses_bounded s"
  shows "addresses_bounded (snd (query lib s f b attrNum va))"
proof -
  have 1: "addresses_bounded (s\<lparr>searchFilter := x, searchBase := y\<rparr>)" for x y
    using assms by (simp add: addresses_bounded_def)
  have 2: "addresses_bounded (s\<lparr>searchFilter := x, searchBase := y, requestedAttributes := z\<rparr>)"
    for x y z
    using assms by (simp add: addresses_bounded_def)
  have 3: "addresses_bounded (s\<lparr>searchFilter := x, searchBase := y, requestedAttributes := z,
      released := (case result s of None \<Rightarrow> released s | Some r \<Rightarrow> result_address r # released s)\<rparr>)"
    for x y z
    using assms by (auto simp add: addresses_bounded_def result_address_def split: option.splits)
  show ?thesis
    unfolding query_unfold [of lib s f b attrNum va]
    using 1 2 3 u_query_bounded by (simp del: split_paired_Ex)
qed

lemma fetch_bounded:
  assumes "addresses_bounded s"
  shows "addresses_bounded (snd (fetch lib s))"
proof -
  let ?e = "entry (snd (fetch lib s))"
  let ?q = "snd (u_query lib (s\<lparr>entry := None\<rparr>))"
  have e: "addresses_bounded (t\<lparr>entry := x\<rparr>) = addresses_bounded t" for t x
    by (simp add: addresses_bounded_def)
  have 1: "addresses_bounded (s\<lparr>entry := ?e\<rparr>)" using assms by (simp only: e)
  have "addresses_bounded ?q" using assms by (intro u_query_bounded) (simp only: e)
  then have 2: "addresses_bounded (?q\<lparr>entry := ?e\<rparr>)" by (simp only: e)
  from fetch_state [of lib s] show ?thesis
  proof
    assume "snd (fetch lib s) = s\<lparr>entry := ?e\<rparr>"
    then show ?thesis using 1 by metis
  next
    assume "snd (fetch lib s) = ?q\<lparr>entry := ?e\<rparr>"
    then show ?thesis using 2 by metis
  qed
qed

lemma new1_bounded: "ldapReader1 lib raw serverUri = (Inr (), s) \<Longrightarrow> addresses_bounded s"
  by (auto simp: addresses_bounded_def ldapReader1_def u_initialize_def u_setVersion_def
      u_setUri_def u_start_def Let_def split: if_splits)

lemma new2_bounded: "ldapReader2 lib raw serverUri v = (Inr (), s) \<Longrightarrow> addresses_bounded s"
  by (auto simp: addresses_bounded_def ldapReader2_def u_initialize_def u_setVersion_def
      u_setUri_def u_start_def Let_def split: if_splits)

lemma reachable_bounded: "reachable lib s \<Longrightarrow> addresses_bounded s"
proof (induction rule: reachable.induct)
  case (new1 raw serverUri s)
  then show ?case by (rule new1_bounded)
next
  case (new2 raw serverUri v s)
  then show ?case by (rule new2_bounded)
next
  case (new3 raw serverUri u p s)
  then obtain s0 where "ldapReader1 lib raw serverUri = (Inr (), s0)" "bind3 lib s0 u p False = (Inr (), s)"
    by (auto simp: ldapReader3_def split: prod.splits sum.splits)
  then have "addresses_bounded s0" "s = snd (bind3 lib s0 u p False)" using new1_bounded by auto
  then show ?case using bind3_bounded by simp
next
  case (new4 raw serverUri u p v s)
  then obtain s0 where "ldapReader2 lib raw serverUri v = (Inr (), s0)" "bind3 lib s0 u p False = (Inr (), s)"
    by (auto simp: ldapReader4_def split: prod.splits sum.splits)
  then have "addresses_bounded s0" "s = snd (bind3 lib s0 u p False)" using new2_bounded by auto
  then show ?case using bind3_bounded by simp
next
  case (after_bind s rebind)
  then show ?case by (simp add: bind_bounded)
next
  case (after_bind3 s u p rebind)
  then show ?case by (simp add: bind3_bounded)
next
  case (after_setPageSize s ps)
  then show ?case by (simp add: addresses_bounded_def setPageSize_def)
next
  case (after_query s f b attrNum va)
  then show ?case by (simp add: query_bounded)
next
  case (after_fetch s)
  then show ?case by (simp add: fetch_bounded)
qed

lemma word_50_pos: "50 < (attrNum :: 32 word) \<Longrightarrow> 0 < attrNum"
  unfolding word_less_nat_alt by simp

lemma opened_reachable: "reachable one_page_library (opened one_page_library)"
proof -
  have "ldapReader1 one_page_library raw_object ''ldap://ldapserver.example.org''
      = (Inr (), opened one_page_library)"
    by (simp add: opened_def one_page_library_def scripted_library_def ldapReader1_def
        u_initialize_def u_setVersion_def LDAP_SUCCESS_def Let_def)
  then show ?thesis by (rule reachable.new1)
qed

subsection \<open>Releasing a value set\<close>

lemma free_values_all:
  "distinct as \<Longrightarrow> \<forall>a\<in>set as. \<exists>bv. cells h a = Some (Berval bv) \<Longrightarrow>
   free_values h (map Some as @ None # rest) =
     Some (h\<lparr>cells := (\<lambda>x. if x \<in> set as then None else cells h x), freed := freed h @ as\<rparr>)"
proof (induction as arbitrary: h)
  case Nil
  then show ?case by simp
next
  case (Cons a as)
  from Cons.prems obtain bv where bv: "cells h a = Some (Berval bv)" by auto
  let ?h = "h\<lparr>cells := (cells h)(a := None), freed := freed h @ [a]\<rparr>"
  have 1: "ber_bvfree h a = Some ?h" using bv by (simp add: ber_bvfree_def)
  have 2: "distinct as" using Cons.prems by simp
  have 3: "\<forall>x\<in>set as. \<exists>bv. cells ?h x = Some (Berval bv)" using Cons.prems by auto
  have "(\<lambda>x. if x \<in> set as then None else cells ?h x)
      = (\<lambda>x. if x \<in> set (a # as) then None else cells h x)"
    by auto
  then show ?case using Cons.IH [OF 2 3] 1 by simp
qed

section \<open>The claims\<close>

text \<open>
  C1. For a query whose result has N entries, \<open>fetch\<close> should return true on exactly the
  first N calls and false on every call after them. The code does not: after \<open>fetch\<close>
  has returned false at the end of the last page, \<open>entry\<close> is null and \<open>result\<close> still
  holds that page, so the next call positions at the page's first entry again. With one
  entry on one page, three calls return true, false, true.
\<close>

theorem fetch_restarts_after_exhaustion:
  "fst (fetches one_page_library 3 (queried one_page_library)) = [Inr True, Inr False, Inr True]"
  by code_simp

text \<open>
  C2. After a page execution the flag \<open>isMorePageAvailable\<close> should be true exactly when
  the cookie of the response is a non-empty byte sequence. The code tests the cookie with
  \<open>strlen\<close>: for the two-byte cookie \<open>00 01\<close> the query succeeds, the cookie stored has
  length 2, the flag is false, and the second \<open>fetch\<close> returns false without
  asking for the page the cookie stands for.
\<close>

theorem nul_cookie_means_no_more_pages:
  "fst (query2 nul_cookie_library (opened nul_cookie_library)
          ''(objectClass=user)'' ''ou=users,dc=example,dc=org'') = Inr ()
   \<and> pageCookie (queried nul_cookie_library) = nul_cookie
   \<and> 0 < bv_len (pageCookie (queried nul_cookie_library))
   \<and> isMorePageAvailable (queried nul_cookie_library) = False
   \<and> fst (fetches nul_cookie_library 2 (queried nul_cookie_library)) = [Inr True, Inr False]
   \<and> length (connection (snd (fetches nul_cookie_library 2 (queried nul_cookie_library)))) = 1"
  by code_simp

text \<open>
  C3. The paging control of the first page of every query should carry an empty cookie.
  \<open>query\<close> does not reset \<open>pageCookie\<close>: a second query sent while the first one still
  had pages left carries the first query's cookie \<open>c1\<close> in its first request. (The
  requests are listed newest first; the first query's own request carries what the
  memory of the new object held, since \<open>_start\<close> does not assign \<open>pageCookie\<close>.)
\<close>

theorem second_query_sends_old_cookie:
  "connection (snd (query2 two_query_library (queried two_query_library)
      ''(objectClass=group)'' ''ou=groups,dc=example,dc=org'')) =
   [Search_request \<lparr>req_base = Some ''ou=groups,dc=example,dc=org'',
      req_filter = Some ''(objectClass=group)'', req_attrs = None,
      req_controls = Some (Some \<lparr>ldctl_pagesize = 1000, ldctl_cookie = cookie_c1,
         ldctl_iscritical = CHR ''T''\<rparr>, None)\<rparr>,
    Search_request \<lparr>req_base = Some ''ou=users,dc=example,dc=org'',
      req_filter = Some ''(objectClass=user)'', req_attrs = None,
      req_controls = Some (Some \<lparr>ldctl_pagesize = 1000,
         ldctl_cookie = \<lparr>bv_len = 0, bv_val = None\<rparr>,
         ldctl_iscritical = CHR ''T''\<rparr>, None)\<rparr>]"
  by code_simp

text \<open>
  C4. On every object a program can hold: \<open>bind\<close> while bound and without \<open>rebind\<close>
  throws "Already binded" (both overloads); \<open>bind\<close> without credentials throws "Auth
  parameters doesn't exist"; otherwise the bind request is sent with the stored
  credentials, and the object is bound when the server accepts, while the call throws the
  server's message when it rejects. The overload taking a user and a password stores them
  first, so that with \<open>rebind\<close> set on a bound object the request carries the new
  identity and the object holds it.
\<close>

theorem bind_cases:
  assumes "reachable lib s"
  shows "(isBinded s \<and> \<not> rebind \<longrightarrow>
            bind lib s rebind = (Inl (ldapException (Text ''Already binded'')), s) \<and>
            bind3 lib s u p rebind = (Inl (ldapException (Text ''Already binded'')), s))
       \<and> (\<not> isCredExist s \<longrightarrow>
            bind lib s rebind = (Inl (ldapException (Text ''Auth parameters doesn't exist'')), s))
       \<and> (\<not> (isBinded s \<and> \<not> rebind) \<and> isCredExist s \<longrightarrow>
            (let s' = snd (bind lib s rebind); ret = ldap_sasl_bind_s lib (connection s') in
             connection s' = Bind_request (bindUser s) (bindCred s) # connection s \<and>
             (ret = LDAP_SUCCESS \<longrightarrow> fst (bind lib s rebind) = Inr () \<and> isBinded s') \<and>
             (ret \<noteq> LDAP_SUCCESS \<longrightarrow>
                fst (bind lib s rebind) = Inl (ldapException (ldap_err2string ret)) \<and>
                isBinded s' = isBinded s)))
       \<and> (\<not> (isBinded s \<and> \<not> rebind) \<longrightarrow>
            (let s' = snd (bind3 lib s u p rebind); ret = ldap_sasl_bind_s lib (connection s') in
             bindUser s' = Some (c_str u) \<and>
             bindCred s' = \<lparr>bv_len = strlen p, bv_val = Some (c_str p)\<rparr> \<and>
             connection s' = Bind_request (bindUser s') (bindCred s') # connection s \<and>
             (ret = LDAP_SUCCESS \<longrightarrow> fst (bind3 lib s u p rebind) = Inr () \<and> isBinded s') \<and>
             (ret \<noteq> LDAP_SUCCESS \<longrightarrow>
                fst (bind3 lib s u p rebind) = Inl (ldapException (ldap_err2string ret)) \<and>
                isBinded s' = isBinded s)))"
proof -
  have inv: "isBinded s \<longrightarrow> isCredExist s"
    using reachable_cred_inv [OF assms] by (simp add: cred_inv_def)
  have 1: "isBinded s \<and> \<not> rebind \<longrightarrow>
            bind lib s rebind = (Inl (ldapException (Text ''Already binded'')), s) \<and>
            bind3 lib s u p rebind = (Inl (ldapException (Text ''Already binded'')), s)"
    by (simp add: bind_def bind3_def)
  have 2: "\<not> isCredExist s \<longrightarrow>
            bind lib s rebind = (Inl (ldapException (Text ''Auth parameters doesn't exist'')), s)"
    using inv by (auto simp: bind_def)
  have 3: "\<not> (isBinded s \<and> \<not> rebind) \<and> isCredExist s \<longrightarrow>
            (let s' = snd (bind lib s rebind); ret = ldap_sasl_bind_s lib (connection s') in
             connection s' = Bind_request (bindUser s) (bindCred s) # connection s \<and>
             (ret = LDAP_SUCCESS \<longrightarrow> fst (bind lib s rebind) = Inr () \<and> isBinded s') \<and>
             (ret \<noteq> LDAP_SUCCESS \<longrightarrow>
                fst (bind lib s rebind) = Inl (ldapException (ldap_err2string ret)) \<and>
                isBinded s' = isBinded s))"
    by (auto simp: bind_def u_bind_def Let_def)
  have 4: "\<not> (isBinded s \<and> \<not> rebind) \<longrightarrow>
            (let s' = snd (bind3 lib s u p rebind); ret = ldap_sasl_bind_s lib (connection s') in
             bindUser s' = Some (c_str u) \<and>
             bindCred s' = \<lparr>bv_len = strlen p, bv_val = Some (c_str p)\<rparr> \<and>
             connection s' = Bind_request (bindUser s') (bindCred s') # connection s \<and>
             (ret = LDAP_SUCCESS \<longrightarrow> fst (bind3 lib s u p rebind) = Inr () \<and> isBinded s') \<and>
             (ret \<noteq> LDAP_SUCCESS \<longrightarrow>
                fst (bind3 lib s u p rebind) = Inl (ldapException (ldap_err2string ret)) \<and>
                isBinded s' = isBinded s))"
    by (auto simp: bind3_def u_bind_def u_setCred_def Let_def)
  from 1 2 3 4 show ?thesis by blast
qed


theorem bind_cases_witness:
  "reachable one_page_library (opened one_page_library) \<and>
   \<not> isCredExist (opened one_page_library) \<and>
   bind one_page_library (opened one_page_library) False =
     (Inl (ldapException (Text ''Auth parameters doesn't exist'')), opened one_page_library) \<and>
   reachable one_page_library bound_session \<and> isBinded bound_session \<and>
   bind one_page_library bound_session False =
     (Inl (ldapException (Text ''Already binded'')), bound_session) \<and>
   fst (bind3 one_page_library bound_session ''cn=user2,dc=example,dc=org'' ''Passw0rd'' True) = Inr () \<and>
   bindUser (snd (bind3 one_page_library bound_session ''cn=user2,dc=example,dc=org'' ''Passw0rd'' True))
     = Some ''cn=user2,dc=example,dc=org''"
proof -
  have r1: "reachable one_page_library (opened one_page_library)" by (rule opened_reachable)
  have r2: "reachable one_page_library bound_session"
    unfolding bound_session_def by (rule reachable.after_bind3 [OF r1])
  have c1: "\<not> isCredExist (opened one_page_library)"
    by (simp add: opened_def one_page_library_def scripted_library_def ldapReader1_def
        u_initialize_def u_setVersion_def u_setUri_def u_start_def LDAP_SUCCESS_def Let_def)
  have b2: "isBinded bound_session"
    by (simp add: bound_session_def bind3_def u_bind_def Let_def LDAP_SUCCESS_def
        one_page_library_def scripted_library_def)
  have ok: "ldap_sasl_bind_s one_page_library h = LDAP_SUCCESS" for h
    by (simp add: one_page_library_def scripted_library_def LDAP_SUCCESS_def)
  show ?thesis
    using bind_cases [OF r1, of False] bind_cases [OF r2, of False]
      bind_cases [OF r2, of True "''cn=user2,dc=example,dc=org''" "''Passw0rd''"] r1 r2 c1 b2 ok
    by (simp add: Let_def c_str_def)
qed



text \<open>
  C6. A call of \<open>query\<close> with more than 50 attributes throws "Too many attributes
  requested." after storing filter and base and before anything else: nothing is sent
  over the connection.
\<close>

theorem query_too_many_attributes:
  "50 < attrNum \<Longrightarrow>
   query lib s searchFilter' searchBase' attrNum va =
     (Inl (ldapException (Text ''Too many attributes requested.'')),
      s\<lparr>searchFilter := Some (c_str searchFilter'), searchBase := Some (c_str searchBase')\<rparr>)
   \<and> connection (snd (query lib s searchFilter' searchBase' attrNum va)) = connection s"
proof -
  assume a: "50 < attrNum"
  then have "0 < attrNum" by (rule word_50_pos)
  with a show ?thesis
    by (simp add: query_def DEFAULT_MAX_NUMBER_OF_ATTRIBUTES_def Let_def)
qed

theorem query_too_many_attributes_witness:
  "fst (query one_page_library (opened one_page_library) ''(objectClass=user)''
          ''ou=users,dc=example,dc=org'' 51 [])
     = Inl (ldapException (Text ''Too many attributes requested.''))
   \<and> connection (snd (query one_page_library (opened one_page_library) ''(objectClass=user)''
          ''ou=users,dc=example,dc=org'' 51 [])) = connection (opened one_page_library)"
proof -
  have "(50 :: 32 word) < 51" by simp
  from query_too_many_attributes [OF this] show ?thesis by simp
qed

text \<open>
  C7. While the object holds no result, every call of \<open>fetch\<close> returns false and
  leaves the object as it is, so no call ever reports an entry.
\<close>

theorem fetch_without_result:
  "result s = None \<Longrightarrow> fetches lib n s = (replicate n (Inr False), s)"
proof (induction n)
  case 0
  show ?case by simp
next
  case (Suc n)
  have "fetch lib s = (Inr False, s)" using Suc.prems by (rule fetch_no_result)
  then show ?case using Suc.IH [OF Suc.prems] by simp
qed

theorem fetch_without_result_witness:
  "result (opened one_page_library) = None \<and>
   fetches one_page_library 2 (opened one_page_library)
     = ([Inr False, Inr False], opened one_page_library)"
proof -
  have 1: "result (opened one_page_library) = None" by code_simp
  from fetch_without_result [OF 1, of one_page_library 2] 1 show ?thesis
    by (simp add: numeral_2_eq_2)
qed

text \<open>
  C8. \<open>clearBerval\<close> of the null pointer leaves the store as it is. For an array that
  holds the addresses \<open>as\<close> of distinct allocated values and then a null pointer, it
  releases the values in the array's order and then the array, and nothing else.
\<close>

theorem clearBerval_releases:
  "clearBerval h None = Some h \<and>
   (cells h p = Some (Pointers (map Some as @ None # rest)) \<and> distinct as \<and>
    (\<forall>a\<in>set as. \<exists>bv. cells h a = Some (Berval bv)) \<longrightarrow>
    clearBerval h (Some p) =
      Some (h\<lparr>cells := (\<lambda>x. if x \<in> set as \<or> x = p then None else cells h x),
              freed := freed h @ as @ [p]\<rparr>))"
proof -
  have "clearBerval h None = Some h" by (simp add: clearBerval_def)
  moreover have "clearBerval h (Some p) =
      Some (h\<lparr>cells := (\<lambda>x. if x \<in> set as \<or> x = p then None else cells h x),
              freed := freed h @ as @ [p]\<rparr>)"
    if a: "cells h p = Some (Pointers (map Some as @ None # rest))" "distinct as"
      "\<forall>a\<in>set as. \<exists>bv. cells h a = Some (Berval bv)"
  proof -
    have p: "p \<notin> set as" using a(1,3) by auto
    have "(\<lambda>x. if x \<in> set as then None else cells h x)(p := None)
        = (\<lambda>x. if x \<in> set as \<or> x = p then None else cells h x)" by auto
    then show ?thesis
      using a p free_values_all [OF a(2,3), of rest]
      by (simp add: clearBerval_def delete_array_def)
  qed
  ultimately show ?thesis by blast
qed

theorem clearBerval_releases_witness:
  "clearBerval example_store None = Some example_store \<and>
   map_option freed (clearBerval example_store (Some 1)) = Some [2, 3, 1] \<and>
   map_option (\<lambda>h. map (cells h) [1, 2, 3, 4]) (clearBerval example_store (Some 1))
     = Some [None, None, None, None]"
proof -
  have 1: "cells example_store 1 = Some (Pointers (map Some [2, 3] @ None # []))"
    by (simp add: example_store_def)
  have 2: "distinct [2, 3 :: nat]" by simp
  have 3: "\<forall>a\<in>set [2, 3]. \<exists>bv. cells example_store a = Some (Berval bv)"
    by (simp add: example_store_def)
  from clearBerval_releases [of example_store 1 "[2, 3]" "[]"] 1 2 3 show ?thesis
    by (simp add: example_store_def)
qed

text \<open>
  C9. The two-argument \<open>query\<close> leaves \<open>requestedAttributes\<close> as it finds it, and the
  search it sends asks for exactly that list: after a query that named attributes, a
  two-argument query asks for those attributes again, not for all attributes. The search
  is sent unless the call stops before it: when the paging control cannot be built the
  call throws, and when the old result was released before and never replaced, releasing
  it again is undefined behaviour; nothing is sent then.
\<close>

theorem query2_keeps_requested_attributes:
  "requestedAttributes (snd (query2 lib s f b)) = requestedAttributes s
   \<and> ((\<forall>r. result s = Some r \<longrightarrow> result_address r \<notin> set (released s)) \<and>
       ldap_create_page_control lib (pageSize s) (pageCookie s) (isPagingCritical s) = 0 \<longrightarrow>
        connection (snd (query2 lib s f b)) =
          Search_request \<lparr>req_base = Some (c_str b), req_filter = Some (c_str f),
            req_attrs = requestedAttributes s,
            req_controls = Some (Some \<lparr>ldctl_pagesize = pageSize s, ldctl_cookie = pageCookie s,
               ldctl_iscritical = isPagingCritical s\<rparr>, None)\<rparr> # connection s)
   \<and> (ldap_create_page_control lib (pageSize s) (pageCookie s) (isPagingCritical s) \<noteq> 0 \<longrightarrow>
        connection (snd (query2 lib s f b)) = connection s)
   \<and> ((\<exists>r. result s = Some r \<and> result_address r \<in> set (released s)) \<longrightarrow>
        fst (query2 lib s f b) = Inl Undefined_behaviour \<and>
        connection (snd (query2 lib s f b)) = connection s)"
proof -
  let ?s = "s\<lparr>searchFilter := Some (c_str f), searchBase := Some (c_str b),
       requestedAttributes := requestedAttributes s,
       released :=
         (case result s of None \<Rightarrow> released s | Some r \<Rightarrow> result_address r # released s)\<rparr>"
  have ub: "query2 lib s f b =
      (Inl Undefined_behaviour,
       s\<lparr>searchFilter := Some (c_str f), searchBase := Some (c_str b),
         requestedAttributes := requestedAttributes s\<rparr>)"
    if "\<exists>r. result s = Some r \<and> result_address r \<in> set (released s)"
    using that by (simp add: query2_def query_unfold)
  have run: "query2 lib s f b = u_query lib ?s"
    if "\<not> (\<exists>r. result s = Some r \<and> result_address r \<in> set (released s))"
    using query_runs [of 0 va s lib f b for va, OF _ _ that] by (simp add: query2_def)
  have 1: "requestedAttributes (snd (query2 lib s f b)) = requestedAttributes s"
  proof (cases "\<exists>r. result s = Some r \<and> result_address r \<in> set (released s)")
    case True
    show ?thesis by (simp add: ub [OF True])
  next
    case False
    show ?thesis using u_query_frame(4) [of lib ?s] by (simp add: run [OF False])
  qed
  have 2: "connection (snd (query2 lib s f b)) =
          Search_request \<lparr>req_base = Some (c_str b), req_filter = Some (c_str f),
            req_attrs = requestedAttributes s,
            req_controls = Some (Some \<lparr>ldctl_pagesize = pageSize s, ldctl_cookie = pageCookie s,
               ldctl_iscritical = isPagingCritical s\<rparr>, None)\<rparr> # connection s"
    if a: "\<forall>r. result s = Some r \<longrightarrow> result_address r \<notin> set (released s)"
      "ldap_create_page_control lib (pageSize s) (pageCookie s) (isPagingCritical s) = 0"
  proof -
    have "\<not> (\<exists>r. result s = Some r \<and> result_address r \<in> set (released s))" using a(1) by blast
    from run [OF this] a(2) u_query_sends [of lib ?s] show ?thesis by simp
  qed
  have 3: "connection (snd (query2 lib s f b)) = connection s"
    if a: "ldap_create_page_control lib (pageSize s) (pageCookie s) (isPagingCritical s) \<noteq> 0"
  proof (cases "\<exists>r. result s = Some r \<and> result_address r \<in> set (released s)")
    case True
    show ?thesis by (simp add: ub [OF True])
  next
    case False
    show ?thesis using a u_query_control_failed [of lib ?s] by (simp add: run [OF False])
  qed
  have 4: "fst (query2 lib s f b) = Inl Undefined_behaviour \<and>
        connection (snd (query2 lib s f b)) = connection s"
    if "\<exists>r. result s = Some r \<and> result_address r \<in> set (released s)"
    by (simp add: ub [OF that])
  from 1 2 3 4 show ?thesis by blast
qed

theorem query2_keeps_requested_attributes_witness:
  "requestedAttributes explicit_session = Some [''sAMAccountName'', ''memberOf'']
   \<and> requestedAttributes (snd (query2 two_query_library explicit_session
        ''(objectClass=group)'' ''ou=groups,dc=example,dc=org''))
      = Some [''sAMAccountName'', ''memberOf'']
   \<and> connection (snd (query2 two_query_library explicit_session
        ''(objectClass=group)'' ''ou=groups,dc=example,dc=org'')) =
      Search_request \<lparr>req_base = Some ''ou=groups,dc=example,dc=org'',
        req_filter = Some ''(objectClass=group)'',
        req_attrs = Some [''sAMAccountName'', ''memberOf''],
        req_controls = Some (Some \<lparr>ldctl_pagesize = 1000, ldctl_cookie = cookie_c1,
           ldctl_iscritical = CHR ''T''\<rparr>, None)\<rparr> # connection explicit_session"
proof -
  have 1: "requestedAttributes explicit_session = Some [''sAMAccountName'', ''memberOf'']"
    by code_simp
  have 2: "ldap_create_page_control two_query_library ps c crit = 0" for ps c crit
    by (simp add: two_query_library_def scripted_library_def)
  have 3: "pageSize explicit_session = 1000" "pageCookie explicit_session = cookie_c1"
    "isPagingCritical explicit_session = CHR ''T''"
    by code_simp+
  have 4: "released explicit_session = []" by code_simp
  show ?thesis
    using query2_keeps_requested_attributes [of two_query_library explicit_session
        "''(objectClass=group)''" "''ou=groups,dc=example,dc=org''"] 1 2 3 4
    by (simp add: c_str_def)
qed

text \<open>
  C10, as the claim states it. "A successful \<open>query\<close> leaves the cookie of the previous
  query unchanged" is false: the page execution inside \<open>query\<close> stores the cookie of the
  new response. Here the object holds \<open>c1\<close> before the second query and \<open>c2\<close> after it.
\<close>

theorem query_replaces_cookie:
  "fst (query2 two_query_library (queried two_query_library)
      ''(objectClass=group)'' ''ou=groups,dc=example,dc=org'') = Inr ()
  \<and> pageCookie (queried two_query_library) = cookie_c1
  \<and> pageCookie (snd (query2 two_query_library (queried two_query_library)
      ''(objectClass=group)'' ''ou=groups,dc=example,dc=org'')) = cookie_c2
  \<and> pageCookie (snd (query2 two_query_library (queried two_query_library)
      ''(objectClass=group)'' ''ou=groups,dc=example,dc=org'')) \<noteq> pageCookie (queried two_query_library)"
  by code_simp

text \<open>
  C10, amended. A successful \<open>query\<close> leaves the member \<open>entry\<close> as it was and does not
  reset the cookie before its page execution: the request of the first page carries the
  cookie the object held before the call, and the page execution then stores the cookie
  of the response. The call releases the head message of the old result. So the next
  \<open>fetch\<close> does not position at the first entry of the new result when \<open>entry\<close> was
  not null before the call; it reads the old pointer:
  \<^item> when \<open>entry\<close> pointed to the head of the old result (the first entry of its page),
    or to any other released message, the read is undefined behaviour;
  \<^item> otherwise \<open>fetch\<close> advances in the old chain and returns true at the successor;
  \<^item> at the end of the old chain it returns false when the new response flagged no more
    pages, and when it flagged more pages it asks for the next page of the new query and
    positions at that page's first entry, so the first page of the new result is skipped.
  With a null result after the call \<open>fetch\<close> returns false.
\<close>

theorem query_keeps_cursor:
  assumes "fst (query lib s f b attrNum va) = Inr ()"
  shows "entry (snd (query lib s f b attrNum va)) = entry s
   \<and> (\<exists>req. connection (snd (query lib s f b attrNum va)) = Search_request req # connection s
        \<and> req_controls req = Some (Some \<lparr>ldctl_pagesize = pageSize s,
             ldctl_cookie = pageCookie s, ldctl_iscritical = isPagingCritical s\<rparr>, None))
   \<and> (\<exists>pr. returnedControls (ldap_search_ext_s lib (connection (snd (query lib s f b attrNum va))))
          = Some pr
        \<and> pageCookie (snd (query lib s f b attrNum va)) = pr_cookie pr)
   \<and> released (snd (query lib s f b attrNum va)) =
        (case result s of None \<Rightarrow> released s | Some r \<Rightarrow> result_address r # released s)
   \<and> (result (snd (query lib s f b attrNum va)) = None \<longrightarrow>
        fetch lib (snd (query lib s f b attrNum va)) = (Inr False, snd (query lib s f b attrNum va)))
   \<and> (\<forall>r' p. result (snd (query lib s f b attrNum va)) = Some r' \<and> entry s = Some p \<and>
          (entry_address p \<in> set (released s) \<or>
           (\<exists>r. result s = Some r \<and> entry_address p = result_address r)) \<longrightarrow>
        fetch lib (snd (query lib s f b attrNum va)) =
          (Inl Undefined_behaviour, snd (query lib s f b attrNum va)))
   \<and> (\<forall>r' p e es. result (snd (query lib s f b attrNum va)) = Some r' \<and> entry s = Some p \<and>
          entry_address p \<notin> set (released (snd (query lib s f b attrNum va))) \<and>
          ent_rest p = e # es \<longrightarrow>
        fetch lib (snd (query lib s f b attrNum va)) =
          (Inr True, (snd (query lib s f b attrNum va))\<lparr>entry := Some \<lparr>ent_chain = ent_chain p,
             ent_index = Suc (ent_index p), ent_entry = e, ent_rest = es\<rparr>\<rparr>))
   \<and> (\<forall>r' p. result (snd (query lib s f b attrNum va)) = Some r' \<and> entry s = Some p \<and>
          entry_address p \<notin> set (released (snd (query lib s f b attrNum va))) \<and>
          ent_rest p = [] \<and> \<not> isMorePageAvailable (snd (query lib s f b attrNum va)) \<longrightarrow>
        fetch lib (snd (query lib s f b attrNum va)) =
          (Inr False, (snd (query lib s f b attrNum va))\<lparr>entry := None\<rparr>))
   \<and> (\<forall>r' p. result (snd (query lib s f b attrNum va)) = Some r' \<and> entry s = Some p \<and>
          entry_address p \<notin> set (released (snd (query lib s f b attrNum va))) \<and>
          ent_rest p = [] \<and> isMorePageAvailable (snd (query lib s f b attrNum va)) \<longrightarrow>
        fetch lib (snd (query lib s f b attrNum va)) =
          (case u_query lib ((snd (query lib s f b attrNum va))\<lparr>entry := None\<rparr>) of
             (Inl err, s2) \<Rightarrow> (Inl err, s2)
           | (Inr _, s2) \<Rightarrow>
               (case result s2 of
                  None \<Rightarrow> (Inr False, s2)
                | Some r2 \<Rightarrow>
                    if result_address r2 \<in> set (released s2) then (Inl Undefined_behaviour, s2)
                    else (Inr (res_entries r2 \<noteq> []), s2\<lparr>entry := ldap_first_entry r2\<rparr>))))"
proof -
  from query_success [OF assms] obtain s2 where
    q: "query lib s f b attrNum va = u_query lib s2" and
    fr: "entry s2 = entry s" "connection s2 = connection s" "pageSize s2 = pageSize s"
      "pageCookie s2 = pageCookie s" "isPagingCritical s2 = isPagingCritical s"
      "released s2 = (case result s of None \<Rightarrow> released s | Some r \<Rightarrow> result_address r # released s)"
    by blast
  let ?s' = "snd (u_query lib s2)"
  have ok: "fst (u_query lib s2) = Inr ()" using assms q by simp
  have 1: "entry ?s' = entry s" using u_query_frame(1) [of lib s2] fr by simp
  have 2: "\<exists>req. connection ?s' = Search_request req # connection s
        \<and> req_controls req = Some (Some \<lparr>ldctl_pagesize = pageSize s,
             ldctl_cookie = pageCookie s, ldctl_iscritical = isPagingCritical s\<rparr>, None)"
    using u_query_sends [OF u_query_success [OF ok]] fr by simp
  have 3: "\<exists>pr. returnedControls (ldap_search_ext_s lib (connection ?s')) = Some pr
        \<and> pageCookie ?s' = pr_cookie pr"
    using u_query_cookie [of lib s2] ok by simp
  have 4: "released ?s' =
      (case result s of None \<Rightarrow> released s | Some r \<Rightarrow> result_address r # released s)"
    using u_query_frame(6) [of lib s2] fr by simp
  have 5: "result ?s' = None \<longrightarrow> fetch lib ?s' = (Inr False, ?s')"
    by (simp add: fetch_no_result)
  have 6: "fetch lib ?s' = (Inl Undefined_behaviour, ?s')"
    if "result ?s' = Some r'" "entry s = Some p"
      "entry_address p \<in> set (released s) \<or> (\<exists>r. result s = Some r \<and> entry_address p = result_address r)"
    for r' p
  proof -
    have "entry_address p \<in> set (released ?s')"
      using that(3) unfolding 4 by (auto split: option.splits)
    then show ?thesis using that(1,2) 1 by (intro fetch_released [of ?s' r' p lib]) simp_all
  qed
  have 7: "fetch lib ?s' = (Inr True, ?s'\<lparr>entry := Some \<lparr>ent_chain = ent_chain p,
             ent_index = Suc (ent_index p), ent_entry = e, ent_rest = es\<rparr>\<rparr>)"
    if "result ?s' = Some r'" "entry s = Some p" "entry_address p \<notin> set (released ?s')"
      "ent_rest p = e # es" for r' p e es
    using that 1 by (intro fetch_next [of ?s' r' p e es lib]) simp_all
  have 8: "fetch lib ?s' = (Inr False, ?s'\<lparr>entry := None\<rparr>)"
    if "result ?s' = Some r'" "entry s = Some p" "entry_address p \<notin> set (released ?s')"
      "ent_rest p = []" "\<not> isMorePageAvailable ?s'" for r' p
    using that 1 by (intro fetch_last [of ?s' r' p lib]) simp_all
  have 9: "fetch lib ?s' =
          (case u_query lib (?s'\<lparr>entry := None\<rparr>) of
             (Inl err, s2) \<Rightarrow> (Inl err, s2)
           | (Inr _, s2) \<Rightarrow>
               (case result s2 of
                  None \<Rightarrow> (Inr False, s2)
                | Some r2 \<Rightarrow>
                    if result_address r2 \<in> set (released s2) then (Inl Undefined_behaviour, s2)
                    else (Inr (res_entries r2 \<noteq> []), s2\<lparr>entry := ldap_first_entry r2\<rparr>)))"
    if "result ?s' = Some r'" "entry s = Some p" "entry_address p \<notin> set (released ?s')"
      "ent_rest p = []" "isMorePageAvailable ?s'" for r' p
    using that 1 by (intro fetch_more [of ?s' r' p lib]) simp_all
  from 1 2 3 4 5 6 7 8 9 show ?thesis unfolding q by blast
qed

theorem query_keeps_cursor_witness:
  "fst (query two_query_library (positioned 1) ''(objectClass=group)''
        ''ou=groups,dc=example,dc=org'' 0 []) = Inr ()
   \<and> map_option ent_entry (entry (positioned 1)) = Some user1
   \<and> map_option res_entries (result (requeried 1)) = Some [user4]
   \<and> fetch two_query_library (requeried 1) = (Inl Undefined_behaviour, requeried 1)
   \<and> map_option ent_entry (entry (positioned 2)) = Some user2
   \<and> fst (fetch two_query_library (requeried 2)) = Inr True
   \<and> map_option ent_entry (entry (snd (fetch two_query_library (requeried 2)))) = Some user3
   \<and> map_option ent_entry (entry (positioned 3)) = Some user3
   \<and> fst (fetch two_query_library (requeried 3)) = Inr True
   \<and> map_option ent_entry (entry (snd (fetch two_query_library (requeried 3)))) = Some user5
   \<and> length (connection (snd (fetch two_query_library (requeried 3)))) = 3"
proof -
  let ?q = "\<lambda>n. query two_query_library (positioned n) ''(objectClass=group)''
        ''ou=groups,dc=example,dc=org'' 0 []"
  let ?r1 = "\<lparr>res_chain = 1, res_entries = [user1, user2, user3]\<rparr>"
  let ?r2 = "\<lparr>res_chain = 2, res_entries = [user4]\<rparr>"
  let ?p1 = "\<lparr>ent_chain = 1, ent_index = 0, ent_entry = user1, ent_rest = [user2, user3]\<rparr>"
  let ?p2 = "\<lparr>ent_chain = 1, ent_index = 1, ent_entry = user2, ent_rest = [user3]\<rparr>"
  have ok: "fst (?q 1) = Inr ()" "fst (?q 2) = Inr ()" "fst (?q 3) = Inr ()" by code_simp+
  have r: "result (positioned 1) = Some ?r1" "result (snd (?q 1)) = Some ?r2"
    "result (snd (?q 2)) = Some ?r2" by code_simp+
  have e: "entry (positioned 1) = Some ?p1" "entry (positioned 2) = Some ?p2" by code_simp+
  have a: "entry_address ?p1 = result_address ?r1"
    by (simp add: entry_address_def result_address_def)
  have l: "entry_address ?p2 \<notin> set (released (snd (?q 2)))" by code_simp
  have 1: "fetch two_query_library (snd (?q 1)) = (Inl Undefined_behaviour, snd (?q 1))"
    using query_keeps_cursor [OF ok(1)] r(1,2) e(1) a by blast
  have 2: "fetch two_query_library (snd (?q 2)) =
      (Inr True, (snd (?q 2))\<lparr>entry := Some \<lparr>ent_chain = ent_chain ?p2,
         ent_index = Suc (ent_index ?p2), ent_entry = user3, ent_rest = []\<rparr>\<rparr>)"
    using query_keeps_cursor [OF ok(2)] r(3) e(2) l by simp
  have 3: "map_option ent_entry (entry (positioned 3)) = Some user3"
    "fst (fetch two_query_library (requeried 3)) = Inr True"
    "map_option ent_entry (entry (snd (fetch two_query_library (requeried 3)))) = Some user5"
    "length (connection (snd (fetch two_query_library (requeried 3)))) = 3"
    by code_simp+
  show ?thesis using ok(1) e r(2) 1 2 3 by (simp add: requeried_def)
qed

end
